theory Spec2Isabelle
  imports Main "HOL-Library.Word"
begin

section \<open>The Autobahn testee: accumulator and echo handler\<close>

text \<open>
  The definitions of this section embed
  \<^verbatim>\<open>components/esp_websocket_client/examples/autobahn-testsuite/testee/main/autobahn_testee.c\<close>
  as built for the Linux target (\<^verbatim>\<open>CONFIG_IDF_TARGET_LINUX\<close>): \<^verbatim>\<open>size_t\<close> has 64 bits,
  \<^verbatim>\<open>int\<close> has 32, delays are \<^verbatim>\<open>usleep\<close> calls in microseconds and the semaphore is a
  POSIX counting semaphore. Logging is left out.
\<close>

subsection \<open>Memory, integers and the accumulator\<close>

type_synonym byte = "8 word"

datatype ptr = NULL | Addr nat

text \<open>Allocated blocks with their contents, by address.\<close>

type_synonym memory = "nat \<Rightarrow> byte list option"

datatype esp_err_t = ESP_OK | ESP_ERR_NO_MEM | ESP_ERR_INVALID_SIZE

definition MAX_FRAGMENTED_PAYLOAD :: nat where
  "MAX_FRAGMENTED_PAYLOAD = 65537"

text \<open>Conversion of a C \<^verbatim>\<open>int\<close> to \<^verbatim>\<open>size_t\<close>, and addition in \<^verbatim>\<open>size_t\<close>: both wrap.\<close>

definition size_t_of_int :: "int \<Rightarrow> nat" where
  "size_t_of_int x = nat (x mod 2 ^ 64)"

definition size_t_add :: "nat \<Rightarrow> nat \<Rightarrow> nat" where
  "size_t_add a b = (a + b) mod 2 ^ 64"

record ws_accumulator_t =
  buffer :: ptr
  capacity :: nat
  expected_len :: nat
  received :: nat
  opcode :: byte
  active :: bool

text \<open>
  The globals of the file: \<^verbatim>\<open>s_accumulator\<close>, \<^verbatim>\<open>s_accum_buffer\<close>, \<^verbatim>\<open>test_running\<close> and
  \<^verbatim>\<open>test_done_sem\<close> (\<open>None\<close> is the null handle, \<open>Some n\<close> a semaphore of count \<open>n\<close>),
  and the heap blocks the pointers refer to.
\<close>

record state =
  s_accumulator :: ws_accumulator_t
  s_accum_buffer :: ptr
  mem :: memory
  test_running :: bool
  test_done_sem :: "nat option"

definition ws_accumulator_reset :: "state \<Rightarrow> state" where
  "ws_accumulator_reset s =
     s\<lparr>s_accumulator := (s_accumulator s)
          \<lparr>expected_len := 0, received := 0, opcode := 0, active := False\<rparr>\<rparr>"

text \<open>
  \<^verbatim>\<open>malloc(MAX_FRAGMENTED_PAYLOAD)\<close>: the environment decides the pointer returned
  (\<open>NULL\<close> on failure); a block of that size then exists at the address. Its bytes are
  taken as zero.
\<close>

definition fresh_block :: "byte list" where
  "fresh_block = replicate MAX_FRAGMENTED_PAYLOAD 0"

definition malloc_block :: "ptr \<Rightarrow> memory \<Rightarrow> memory" where
  "malloc_block p m = (case p of NULL \<Rightarrow> m | Addr a \<Rightarrow> m(a \<mapsto> fresh_block))"

text \<open>
  \<^verbatim>\<open>ws_accumulator_prepare(total_len, opcode)\<close>; the first argument is what \<^verbatim>\<open>malloc\<close>
  returns if it is called.
\<close>

definition ws_accumulator_prepare :: "ptr \<Rightarrow> nat \<Rightarrow> byte \<Rightarrow> state \<Rightarrow> esp_err_t \<times> state" where
  "ws_accumulator_prepare mres total_len opc s =
     (if total_len = 0 then (ESP_OK, s)
      else if total_len > MAX_FRAGMENTED_PAYLOAD then (ESP_ERR_INVALID_SIZE, s)
      else
        (let alloc = (s_accum_buffer s = NULL);
             s1 = (if alloc
                   then s\<lparr>s_accum_buffer := mres, mem := malloc_block mres (mem s)\<rparr>
                   else s)
         in if alloc \<and> mres = NULL then (ESP_ERR_NO_MEM, s1)
            else (ESP_OK,
                  s1\<lparr>s_accumulator := (s_accumulator s1)
                       \<lparr>buffer := s_accum_buffer s1,
                        capacity := MAX_FRAGMENTED_PAYLOAD,
                        expected_len := total_len,
                        received := 0,
                        opcode := opc,
                        active := True\<rparr>\<rparr>)))"

subsection \<open>Events and environment\<close>

text \<open>
  Modelled from the spec: the event record \<^verbatim>\<open>esp_websocket_event_data_t\<close> is declared in
  the client's header, which is not among the sources; the spec gives
  \<open>Data{opcode, payload, fin, total_len, offset}\<close>. The fields are those the handler
  reads; lengths and offsets are C \<^verbatim>\<open>int\<close>s (the handler prints them with \<^verbatim>\<open>%d\<close>).
  \<open>data_ptr\<close> is \<open>None\<close> for a null pointer, else the bytes readable at the pointer.
\<close>

record esp_websocket_event_data_t =
  data_ptr :: "byte list option"
  data_len :: int
  fin :: bool
  op_code :: byte
  payload_len :: int
  payload_offset :: int

datatype esp_websocket_event_id_t =
  WEBSOCKET_EVENT_CONNECTED
  | WEBSOCKET_EVENT_DISCONNECTED
  | WEBSOCKET_EVENT_DATA
  | WEBSOCKET_EVENT_ERROR
  | WEBSOCKET_EVENT_FINISH
  | WEBSOCKET_EVENT_OTHER

text \<open>
  What the handler asks of the outside during one invocation: whether the client is
  connected (at line 175, at line 305, and at the head of each iteration of the retry
  loop), what each call of \<^verbatim>\<open>esp_websocket_client_send_with_opcode\<close> returns, and what
  \<^verbatim>\<open>malloc\<close> returns.
\<close>

record env =
  connected_on_entry :: bool
  connected_before_echo :: bool
  connected_in_loop :: "nat \<Rightarrow> bool"
  send_result :: "nat \<Rightarrow> int"
  malloc_result :: ptr

text \<open>The opcodes of \<^verbatim>\<open>esp_transport_ws.h\<close> the handler echoes with.\<close>

definition WS_TRANSPORT_OPCODES_CONT :: byte where
  "WS_TRANSPORT_OPCODES_CONT = 0x00"

definition WS_TRANSPORT_OPCODES_TEXT :: byte where
  "WS_TRANSPORT_OPCODES_TEXT = 0x01"

definition WS_TRANSPORT_OPCODES_BINARY :: byte where
  "WS_TRANSPORT_OPCODES_BINARY = 0x02"

subsection \<open>The data event up to the echo\<close>

text \<open>
  How the data case of \<^verbatim>\<open>websocket_event_handler\<close> leaves its first part (lines 170 to
  309): by a \<^verbatim>\<open>break\<close>, by a memory access outside every block, or by going on to echo
  \<open>len\<close> bytes with an opcode.
\<close>

datatype outcome = Break state | Fault | Echo state byte "byte list" nat

datatype flow = Stop state | Go state

text \<open>Lines 190 to 200: the opcode to echo with; \<open>None\<close> is the unsupported opcode.\<close>

definition send_opcode_of :: "byte \<Rightarrow> byte option" where
  "send_opcode_of opc =
     (if opc = 0x1 then Some WS_TRANSPORT_OPCODES_TEXT
      else if opc = 0x2 then Some WS_TRANSPORT_OPCODES_BINARY
      else if opc = 0x0 then Some WS_TRANSPORT_OPCODES_CONT
      else None)"

text \<open>The \<open>n\<close> bytes a call reads at a source pointer, and at a heap pointer.\<close>

definition bytes_at :: "byte list option \<Rightarrow> nat \<Rightarrow> byte list" where
  "bytes_at src n = (case src of None \<Rightarrow> [] | Some bs \<Rightarrow> take n bs)"

definition heap_bytes :: "memory \<Rightarrow> ptr \<Rightarrow> nat \<Rightarrow> byte list" where
  "heap_bytes m p n =
     (case p of NULL \<Rightarrow> [] | Addr a \<Rightarrow> (case m a of None \<Rightarrow> [] | Some blk \<Rightarrow> take n blk))"

text \<open>
  \<^verbatim>\<open>memcpy(dst + off, src, n)\<close>: \<open>None\<close> when the write leaves the block at \<open>dst\<close>, when
  there is no such block, or when fewer than \<open>n\<close> bytes are readable at \<open>src\<close>.
\<close>

definition memcpy :: "memory \<Rightarrow> ptr \<Rightarrow> nat \<Rightarrow> byte list option \<Rightarrow> nat \<Rightarrow> memory option" where
  "memcpy m dst off src n =
     (case dst of
        NULL \<Rightarrow> None
      | Addr a \<Rightarrow>
          (case m a of
             None \<Rightarrow> None
           | Some blk \<Rightarrow>
               (let bs = (case src of None \<Rightarrow> [] | Some b \<Rightarrow> b)
                in if off + n \<le> length blk \<and> n \<le> length bs
                   then Some (m(a \<mapsto> take off blk @ take n bs @ drop (off + n) blk))
                   else None)))"

text \<open>Lines 231 to 238: the buffer is allocated here when it is still missing.\<close>

definition ensure_buffer :: "ptr \<Rightarrow> state \<Rightarrow> flow" where
  "ensure_buffer mres s =
     (if s_accum_buffer s = NULL
      then (if mres = NULL then Stop s
            else Go (s\<lparr>s_accum_buffer := mres, mem := malloc_block mres (mem s)\<rparr>))
      else Go s)"

text \<open>Lines 240 to 258: start, restart or continue the accumulation.\<close>

definition prepare_for_chunk ::
  "ptr \<Rightarrow> esp_websocket_event_data_t \<Rightarrow> nat \<Rightarrow> byte \<Rightarrow> state \<Rightarrow> flow" where
  "prepare_for_chunk mres d total_len send_opcode s =
     (let r =
        (if payload_offset d = 0 \<or> \<not> active (s_accumulator s)
         then (let (err, s1) = ws_accumulator_prepare mres total_len send_opcode s
               in if err \<noteq> ESP_OK then Stop s1 else Go s1)
         else if total_len \<noteq> expected_len (s_accumulator s)
         then (let (err, s1) =
                     ws_accumulator_prepare mres total_len send_opcode (ws_accumulator_reset s)
               in if err \<noteq> ESP_OK then Stop s1 else Go s1)
         else Go s)
      in case r of
           Stop s1 \<Rightarrow> Stop s1
         | Go s1 \<Rightarrow>
             if \<not> active (s_accumulator s1) \<or> buffer (s_accumulator s1) = NULL
             then Stop (ws_accumulator_reset s1)
             else Go s1)"

text \<open>Lines 260 to 302: the bounds checks, the copy, and the test for completion.\<close>

definition copy_chunk :: "esp_websocket_event_data_t \<Rightarrow> state \<Rightarrow> outcome" where
  "copy_chunk d s =
     (let acc = s_accumulator s;
          offset = size_t_of_int (payload_offset d);
          n = size_t_of_int (data_len d)
      in if data_ptr d = None \<and> data_len d > 0 then Break (ws_accumulator_reset s)
         else if size_t_add offset n > capacity acc then Break (ws_accumulator_reset s)
         else if size_t_add offset n > expected_len acc then Break (ws_accumulator_reset s)
         else if buffer acc = NULL then Break (ws_accumulator_reset s)
         else
           (case memcpy (mem s) (buffer acc) offset (data_ptr d) n of
              None \<Rightarrow> Fault
            | Some m1 \<Rightarrow>
                (let s1 = s\<lparr>mem := m1, s_accumulator := acc\<lparr>received := size_t_add offset n\<rparr>\<rparr>
                 in if received (s_accumulator s1) < expected_len (s_accumulator s1)
                    then Break s1
                    else Echo (s1\<lparr>s_accumulator := (s_accumulator s1)\<lparr>active := False\<rparr>\<rparr>)
                           (opcode acc)
                           (heap_bytes m1 (buffer acc) (expected_len acc))
                           (expected_len acc))))"

text \<open>Lines 229 to 302: the branch taken by a fragmented delivery.\<close>

definition accumulate ::
  "ptr \<Rightarrow> esp_websocket_event_data_t \<Rightarrow> nat \<Rightarrow> byte \<Rightarrow> state \<Rightarrow> outcome" where
  "accumulate mres d total_len send_opcode s =
     (case ensure_buffer mres s of
        Stop s1 \<Rightarrow> Break s1
      | Go s1 \<Rightarrow>
          (case prepare_for_chunk mres d total_len send_opcode s1 of
             Stop s2 \<Rightarrow> Break s2
           | Go s2 \<Rightarrow> copy_chunk d s2))"

text \<open>
  Lines 212 to 302: the payload to echo is the event's own data, or, for a fragmented
  delivery, what the accumulator holds once the message is complete.
\<close>

definition select_payload ::
  "env \<Rightarrow> esp_websocket_event_data_t \<Rightarrow> byte \<Rightarrow> state \<Rightarrow> outcome" where
  "select_payload e d send_opcode s =
     (let len = size_t_of_int (data_len d);
          total_len = size_t_of_int (if payload_len d \<noteq> 0 then payload_len d else data_len d);
          fragmented = ((payload_len d > 0 \<and> payload_len d > data_len d) \<or> payload_offset d > 0)
      in if fragmented \<and> total_len > 0
         then accumulate (malloc_result e) d total_len send_opcode s
         else Echo s send_opcode (bytes_at (data_ptr d) len) len)"

text \<open>Lines 304 to 309: no echo when the connection is lost by now.\<close>

definition check_connection :: "env \<Rightarrow> outcome \<Rightarrow> outcome" where
  "check_connection e r =
     (case r of
        Echo s1 opc payload n \<Rightarrow>
          if \<not> connected_before_echo e then Break (ws_accumulator_reset s1)
          else Echo s1 opc payload n
      | Break s1 \<Rightarrow> Break s1
      | Fault \<Rightarrow> Fault)"

text \<open>Lines 170 to 309: the data case up to the retry loop.\<close>

definition handle_data :: "env \<Rightarrow> esp_websocket_event_data_t \<Rightarrow> state \<Rightarrow> outcome" where
  "handle_data e d s =
     (if \<not> test_running s \<or> \<not> connected_on_entry e then Break (ws_accumulator_reset s)
      else if op_code d \<ge> 0x08 then Break s
      else
        (case send_opcode_of (op_code d) of
           None \<Rightarrow> Break s
         | Some send_opcode \<Rightarrow>
             if data_ptr d = None \<and> data_len d > 0 then Break s
             else check_connection e (select_payload e d send_opcode s)))"

subsection \<open>The echo and its retry loop\<close>

definition backoff :: "nat list" where
  "backoff = [1, 1, 1, 2, 4, 8]"

text \<open>Lines 323 to 331: the timeout of one send call, in milliseconds.\<close>

definition send_timeout_ms :: "nat \<Rightarrow> nat" where
  "send_timeout_ms len =
     (if len > 1024 then 500
      else (let t = len div 256 + 10 in if t > 100 then 100 else t))"

text \<open>
  Lines 319 to 380, the \<^verbatim>\<open>while\<close> loop. \<open>calls\<close> counts the send calls made so far and
  \<open>delays\<close> collects the arguments of \<^verbatim>\<open>usleep\<close>. The result is the last value of
  \<^verbatim>\<open>sent\<close>, the last value of \<^verbatim>\<open>attempt\<close>, the number of send calls and the delays; a
  loop that never ends has the value \<open>None\<close>.
\<close>

partial_function (option) echo_retry_loop ::
  "(nat \<Rightarrow> bool) \<Rightarrow> (nat \<Rightarrow> int) \<Rightarrow> int \<Rightarrow> nat \<Rightarrow> nat \<Rightarrow> nat list \<Rightarrow>
     (int \<times> nat \<times> nat \<times> nat list) option" where
  "echo_retry_loop conn sendf sent attempt calls delays =
     (if sent < 0 \<and> conn calls
      then (let sent1 = sendf calls
            in if sent1 \<ge> 0 then Some (sent1, attempt, calls + 1, delays)
               else if attempt < length backoff
               then echo_retry_loop conn sendf sent1 (attempt + 1) (calls + 1)
                      (delays @ [backoff ! attempt * 1000])
               else echo_retry_loop conn sendf sent1 attempt (calls + 1) (delays @ [32 * 1000]))
      else Some (sent, attempt, calls, delays))"

text \<open>What one invocation of the handler did towards the peer.\<close>

record echo_log =
  echo_opcode :: byte
  echo_payload :: "byte list"
  echo_len :: nat
  echo_timeout :: nat
  echo_sent :: int
  echo_attempt :: nat
  echo_calls :: nat
  echo_delays :: "nat list"

datatype result = Crashed | Returned state "echo_log option"

text \<open>Lines 311 to 390: the echo of \<open>len\<close> bytes, once the data case has got that far.\<close>

definition echo :: "env \<Rightarrow> state \<Rightarrow> byte \<Rightarrow> byte list \<Rightarrow> nat \<Rightarrow> result option" where
  "echo e s send_opcode payload len =
     (case echo_retry_loop (connected_in_loop e) (send_result e) (- 1) 0 0 [] of
        None \<Rightarrow> None
      | Some (sent, attempt, calls, delays) \<Rightarrow>
          Some (Returned s
            (Some \<lparr>echo_opcode = send_opcode,
                   echo_payload = (if len > 0 then payload else []),
                   echo_len = len,
                   echo_timeout = send_timeout_ms len,
                   echo_sent = sent,
                   echo_attempt = attempt,
                   echo_calls = calls,
                   echo_delays = delays\<rparr>)))"

subsection \<open>The handler\<close>

text \<open>\<^verbatim>\<open>if (test_done_sem) sem_post(test_done_sem)\<close>.\<close>

definition post_test_done :: "state \<Rightarrow> state" where
  "post_test_done s = s\<lparr>test_done_sem := map_option Suc (test_done_sem s)\<rparr>"

text \<open>
  \<^verbatim>\<open>websocket_event_handler\<close>. \<open>None\<close>: the handler does not return; \<open>Crashed\<close>: it made
  a memory access outside every block.
\<close>

definition websocket_event_handler ::
  "env \<Rightarrow> esp_websocket_event_id_t \<Rightarrow> esp_websocket_event_data_t \<Rightarrow> state \<Rightarrow> result option" where
  "websocket_event_handler e event_id d s =
     (case event_id of
        WEBSOCKET_EVENT_CONNECTED \<Rightarrow> Some (Returned (s\<lparr>test_running := True\<rparr>) None)
      | WEBSOCKET_EVENT_DISCONNECTED \<Rightarrow>
          Some (Returned (post_test_done (ws_accumulator_reset (s\<lparr>test_running := False\<rparr>))) None)
      | WEBSOCKET_EVENT_DATA \<Rightarrow>
          (case handle_data e d s of
             Break s1 \<Rightarrow> Some (Returned s1 None)
           | Fault \<Rightarrow> Some Crashed
           | Echo s1 send_opcode payload len \<Rightarrow> echo e s1 send_opcode payload len)
      | WEBSOCKET_EVENT_ERROR \<Rightarrow>
          Some (Returned (post_test_done (ws_accumulator_reset (s\<lparr>test_running := False\<rparr>))) None)
      | WEBSOCKET_EVENT_FINISH \<Rightarrow>
          Some (Returned (post_test_done (ws_accumulator_reset (s\<lparr>test_running := False\<rparr>))) None)
      | WEBSOCKET_EVENT_OTHER \<Rightarrow> Some (Returned s None))"

subsection \<open>Well-formed events and states\<close>

text \<open>
  The client delivers lengths and offsets that are not negative, and a data pointer, when
  it is not null, with \<open>data_len\<close> readable bytes.
\<close>

definition wf_event :: "esp_websocket_event_data_t \<Rightarrow> bool" where
  "wf_event d =
     (0 \<le> data_len d \<and> data_len d < 2 ^ 31 \<and>
      0 \<le> payload_len d \<and> payload_len d < 2 ^ 31 \<and>
      0 \<le> payload_offset d \<and> payload_offset d < 2 ^ 31 \<and>
      (case data_ptr d of None \<Rightarrow> True | Some bs \<Rightarrow> nat (data_len d) \<le> length bs))"

text \<open>
  What holds of the globals between two invocations of the handler: the bound of the
  specification on the counters, the buffer pointer of the accumulator is null or the
  allocated buffer, an active accumulator has a buffer, and the allocated buffer is a block
  of \<open>MAX_FRAGMENTED_PAYLOAD\<close> bytes.
\<close>

definition wf_state :: "state \<Rightarrow> bool" where
  "wf_state s =
     (let acc = s_accumulator s
      in received acc \<le> expected_len acc \<and>
         expected_len acc \<le> capacity acc \<and>
         capacity acc \<le> MAX_FRAGMENTED_PAYLOAD \<and>
         (buffer acc \<noteq> NULL \<longrightarrow> buffer acc = s_accum_buffer s) \<and>
         (active acc \<longrightarrow> buffer acc \<noteq> NULL) \<and>
         (\<forall>a. s_accum_buffer s = Addr a \<longrightarrow>
              (\<exists>blk. mem s a = Some blk \<and> length blk = MAX_FRAGMENTED_PAYLOAD)))"

text \<open>The globals as an outcome leaves them.\<close>

fun state_of :: "outcome \<Rightarrow> state option" where
  "state_of (Break s) = Some s"
| "state_of Fault = None"
| "state_of (Echo s opc payload n) = Some s"

subsection \<open>Concrete inputs\<close>

text \<open>
  The globals once \<^verbatim>\<open>app_main\<close> has allocated the buffer (at address 0 here),
  \<^verbatim>\<open>run_test_case\<close> has created the semaphore and the connected event has been handled.
\<close>

definition zero_accumulator :: ws_accumulator_t where
  "zero_accumulator =
     \<lparr>buffer = NULL, capacity = 0, expected_len = 0, received = 0, opcode = 0, active = False\<rparr>"

definition s_ready :: state where
  "s_ready =
     \<lparr>s_accumulator = zero_accumulator, s_accum_buffer = Addr 0,
      mem = malloc_block (Addr 0) Map.empty, test_running = True, test_done_sem = Some 0\<rparr>"

text \<open>A client that stays connected, and one whose every send fails.\<close>

definition always_connected :: "nat \<Rightarrow> bool" where
  "always_connected n = True"

definition always_would_block :: "nat \<Rightarrow> int" where
  "always_would_block n = - 1"

definition env_ok :: env where
  "env_ok =
     \<lparr>connected_on_entry = True, connected_before_echo = True,
      connected_in_loop = always_connected, send_result = always_would_block,
      malloc_result = NULL\<rparr>"

text \<open>The same, but the client reports that it is not connected when the handler starts.\<close>

definition env_lost :: env where
  "env_lost = env_ok\<lparr>connected_on_entry := False\<rparr>"

text \<open>
  A binary frame of 4 bytes delivered in two chunks of 2, and the globals between the two.
\<close>

definition chunk1 :: esp_websocket_event_data_t where
  "chunk1 =
     \<lparr>data_ptr = Some [1, 2], data_len = 2, fin = False, op_code = 0x2,
      payload_len = 4, payload_offset = 0\<rparr>"

definition chunk2 :: esp_websocket_event_data_t where
  "chunk2 =
     \<lparr>data_ptr = Some [3, 4], data_len = 2, fin = True, op_code = 0x2,
      payload_len = 4, payload_offset = 2\<rparr>"

definition s_mid :: state where
  "s_mid =
     \<lparr>s_accumulator =
        \<lparr>buffer = Addr 0, capacity = MAX_FRAGMENTED_PAYLOAD, expected_len = 4, received = 2,
         opcode = 0x2, active = True\<rparr>,
      s_accum_buffer = Addr 0,
      mem = Map.empty(0 \<mapsto> [1, 2] @ drop 2 fresh_block),
      test_running = True, test_done_sem = Some 0\<rparr>"

text \<open>A second chunk that runs past the 4 bytes declared.\<close>

definition chunk_beyond :: esp_websocket_event_data_t where
  "chunk_beyond =
     \<lparr>data_ptr = Some [3, 4, 5], data_len = 3, fin = True, op_code = 0x2,
      payload_len = 4, payload_offset = 2\<rparr>"

text \<open>
  A second chunk that ends at byte 5 and declares a total of 10 bytes where 4 were
  declared, the globals that chunk leaves, and a second chunk that ends at byte 5 and
  declares a total of 3.
\<close>

definition chunk_longer :: esp_websocket_event_data_t where
  "chunk_longer =
     \<lparr>data_ptr = Some [3, 4, 5], data_len = 3, fin = False, op_code = 0x2,
      payload_len = 10, payload_offset = 2\<rparr>"

definition s_longer :: state where
  "s_longer =
     \<lparr>s_accumulator =
        \<lparr>buffer = Addr 0, capacity = MAX_FRAGMENTED_PAYLOAD, expected_len = 10, received = 5,
         opcode = 0x2, active = True\<rparr>,
      s_accum_buffer = Addr 0,
      mem = Map.empty(0 \<mapsto> [1, 2, 3, 4, 5] @ drop 5 fresh_block),
      test_running = True, test_done_sem = Some 0\<rparr>"

definition chunk_beyond_new :: esp_websocket_event_data_t where
  "chunk_beyond_new =
     \<lparr>data_ptr = Some [3, 4, 5], data_len = 3, fin = True, op_code = 0x2,
      payload_len = 3, payload_offset = 2\<rparr>"

text \<open>
  Chunks at offset 0 that open a message longer than \<open>MAX_FRAGMENTED_PAYLOAD\<close>, and one
  that opens a text message of 3 bytes.
\<close>

definition chunk_oversize :: esp_websocket_event_data_t where
  "chunk_oversize =
     \<lparr>data_ptr = Some [9], data_len = 1, fin = False, op_code = 0x2,
      payload_len = 70000, payload_offset = 0\<rparr>"

definition chunk_oversize_text :: esp_websocket_event_data_t where
  "chunk_oversize_text =
     \<lparr>data_ptr = Some [9], data_len = 1, fin = False, op_code = 0x1,
      payload_len = 65538, payload_offset = 0\<rparr>"

definition chunk_oversize_restart :: esp_websocket_event_data_t where
  "chunk_oversize_restart =
     \<lparr>data_ptr = Some [9, 9], data_len = 2, fin = False, op_code = 0x1,
      payload_len = 100000, payload_offset = 0\<rparr>"

definition chunk_new_text :: esp_websocket_event_data_t where
  "chunk_new_text =
     \<lparr>data_ptr = Some [7], data_len = 1, fin = False, op_code = 0x1,
      payload_len = 3, payload_offset = 0\<rparr>"

text \<open>What an outcome hands to the echo: opcode, payload and length.\<close>

fun echoed :: "outcome \<Rightarrow> (byte \<times> byte list \<times> nat) option" where
  "echoed (Echo s opc payload n) = Some (opc, payload, n)"
| "echoed (Break s) = None"
| "echoed Fault = None"

text \<open>
  Chunks at offset 2 whose declared total length is not the 4 bytes expected: one beyond
  the maximum, one of 3 bytes.
\<close>

definition chunk_resize_over :: esp_websocket_event_data_t where
  "chunk_resize_over =
     \<lparr>data_ptr = Some [7], data_len = 1, fin = False, op_code = 0x2,
      payload_len = 70000, payload_offset = 2\<rparr>"

definition chunk_resize :: esp_websocket_event_data_t where
  "chunk_resize =
     \<lparr>data_ptr = Some [7], data_len = 1, fin = True, op_code = 0x2,
      payload_len = 3, payload_offset = 2\<rparr>"

text \<open>
  A continuation frame of 4 bytes delivered in two chunks of 2, and the globals between
  the two.
\<close>

definition cont1 :: esp_websocket_event_data_t where
  "cont1 =
     \<lparr>data_ptr = Some [1, 2], data_len = 2, fin = False, op_code = 0x0,
      payload_len = 4, payload_offset = 0\<rparr>"

definition cont2 :: esp_websocket_event_data_t where
  "cont2 =
     \<lparr>data_ptr = Some [3, 4], data_len = 2, fin = True, op_code = 0x0,
      payload_len = 4, payload_offset = 2\<rparr>"

definition s_cont :: state where
  "s_cont = s_mid\<lparr>s_accumulator := (s_accumulator s_mid)\<lparr>opcode := 0x0\<rparr>\<rparr>"

text \<open>
  The schedule of the retry loop as the specification words it: a bounded exponential
  backoff for a small fixed number of attempts, then a slow fixed interval. \<open>retry_delay k\<close>
  is the wait, in microseconds, after the failed send number \<open>k\<close> (counted from 0).
\<close>

definition retry_delay :: "nat \<Rightarrow> nat" where
  "retry_delay k = (if k < 6 then [1, 1, 1, 2, 4, 8] ! k * 1000 else 32000)"

text \<open>
  A transport that reports would-block five times and then writes 7 bytes, and a text
  message of 2 bytes delivered whole.
\<close>

definition five_would_blocks :: "nat \<Rightarrow> int" where
  "five_would_blocks n = (if n < 5 then - 1 else 7)"

definition msg_small :: esp_websocket_event_data_t where
  "msg_small =
     \<lparr>data_ptr = Some [1, 2], data_len = 2, fin = True, op_code = 0x1,
      payload_len = 2, payload_offset = 0\<rparr>"

subsection \<open>The automatic pong\<close>

text \<open>
  Modelled from the spec: the receive path of the client (\<^verbatim>\<open>esp_websocket_client.c\<close>) is
  not among the sources. The spec has it that a received ping is answered with a pong
  carrying an identical payload, automatically, without consumer involvement, within the
  same read cycle. \<open>client_receive\<close> delivers the data event of one received frame to the
  handler and gives the frames sent to the peer in that cycle: the handler's echo, when a
  send call succeeded, and the pong.
\<close>

definition WS_TRANSPORT_OPCODES_PING :: byte where
  "WS_TRANSPORT_OPCODES_PING = 0x09"

definition WS_TRANSPORT_OPCODES_PONG :: byte where
  "WS_TRANSPORT_OPCODES_PONG = 0x0a"

datatype frame = Frame byte "byte list"

definition handler_frames :: "result option \<Rightarrow> frame list" where
  "handler_frames r =
     (case r of
        Some (Returned s (Some l)) \<Rightarrow>
          if echo_sent l \<ge> 0 then [Frame (echo_opcode l) (echo_payload l)] else []
      | _ \<Rightarrow> [])"

definition client_receive ::
  "env \<Rightarrow> esp_websocket_event_data_t \<Rightarrow> state \<Rightarrow> frame list \<times> result option" where
  "client_receive e d s =
     (let r = websocket_event_handler e WEBSOCKET_EVENT_DATA d s;
          pong = (if op_code d = WS_TRANSPORT_OPCODES_PING
                  then [Frame WS_TRANSPORT_OPCODES_PONG
                          (bytes_at (data_ptr d) (size_t_of_int (data_len d)))]
                  else [])
      in (handler_frames r @ pong, r))"

text \<open>A ping with one byte of payload.\<close>

definition ping_frame :: esp_websocket_event_data_t where
  "ping_frame =
     \<lparr>data_ptr = Some [5], data_len = 1, fin = True, op_code = 0x9,
      payload_len = 1, payload_offset = 0\<rparr>"

section \<open>The transport stack\<close>

text \<open>
  Modelled from the spec: the transport stack (\<^verbatim>\<open>esp_transport_close\<close> and the close
  handlers of the layers) is not among the sources; \<^verbatim>\<open>websocket_example.c\<close> only calls the
  client and states the fix in its header comment:
  \<^verbatim>\<open>if (t == NULL) return 0; if (t->_closed) return 0;
  int ret = t->_close ? t->_close(t) : 0; t->_closed = true; return ret;\<close>
  The spec has a chain of layers, each wrapping and owning the layer below it; closing a
  layer is a no-op once its \<open>closed\<close> flag is set, always sets the flag, even on error, and
  cascades downward, as the close handler of the WebSocket layer closes the layer beneath it.
  A stack is the list of its layers, outermost first. \<open>teardowns\<close> counts how often the
  layer's own resource was released, \<open>teardown_result\<close> is what its close handler returns.
\<close>

record transport_layer =
  closed :: bool
  teardowns :: nat
  teardown_result :: int

fun esp_transport_close :: "transport_layer list \<Rightarrow> int \<times> transport_layer list" where
  "esp_transport_close [] = (0, [])"
| "esp_transport_close (t # below) =
     (if closed t then (0, t # below)
      else (teardown_result t,
            t\<lparr>teardowns := Suc (teardowns t), closed := True\<rparr> # snd (esp_transport_close below)))"

definition close_layer :: "nat \<Rightarrow> transport_layer list \<Rightarrow> int \<times> transport_layer list" where
  "close_layer i st =
     (let (ret, chain) = esp_transport_close (drop i st) in (ret, take i st @ chain))"

text \<open>A sequence of close invocations, each on the layer of the given index.\<close>

fun close_all :: "nat list \<Rightarrow> transport_layer list \<Rightarrow> transport_layer list" where
  "close_all [] st = st"
| "close_all (i # is) st = close_all is (snd (close_layer i st))"

text \<open>Every layer was torn down once if it is closed, and never if it is open.\<close>

definition released_once :: "transport_layer list \<Rightarrow> bool" where
  "released_once st = (\<forall>t\<in>set st. teardowns t = (if closed t then 1 else 0))"

text \<open>A stack of three open layers; the close handler of the middle one reports an error.\<close>

definition fresh_layer :: transport_layer where
  "fresh_layer = \<lparr>closed = False, teardowns = 0, teardown_result = 0\<rparr>"

definition fresh_stack :: "transport_layer list" where
  "fresh_stack = [fresh_layer, fresh_layer\<lparr>teardown_result := - 1\<rparr>, fresh_layer]"

section \<open>Properties\<close>

subsection \<open>Arithmetic and memory\<close>

lemma size_t_of_int_nat: "0 \<le> x \<Longrightarrow> x < 2 ^ 31 \<Longrightarrow> size_t_of_int x = nat x"
  by (simp add: size_t_of_int_def)

lemma size_t_add_small: "a < 2 ^ 31 \<Longrightarrow> b < 2 ^ 31 \<Longrightarrow> size_t_add a b = a + b"
  by (simp add: size_t_add_def)

lemma size_t_add_nat:
  assumes "0 \<le> x" "x < 2 ^ 31" "0 \<le> y" "y < 2 ^ 31"
  shows "size_t_add (nat x) (nat y) = nat x + nat y"
proof -
  have "nat x < 2 ^ 31" and "nat y < 2 ^ 31"
    using assms by (simp_all add: nat_less_iff)
  then show ?thesis
    by (rule size_t_add_small)
qed

lemma wf_event_sizes:
  assumes "wf_event d"
  shows "size_t_of_int (data_len d) = nat (data_len d)"
    and "size_t_of_int (payload_offset d) = nat (payload_offset d)"
    and "size_t_of_int (payload_len d) = nat (payload_len d)"
    and "size_t_add (nat (payload_offset d)) (nat (data_len d)) = nat (payload_offset d) + nat (data_len d)"
  using assms by (simp_all add: wf_event_def size_t_of_int_nat size_t_add_nat)

lemma memcpy_ok:
  assumes "m a = Some blk" "off + n \<le> length blk" "n \<le> length (case src of None \<Rightarrow> [] | Some b \<Rightarrow> b)"
  shows "memcpy m (Addr a) off src n = Some (m(a \<mapsto> take off blk @ bytes_at src n @ drop (off + n) blk))"
  using assms by (simp add: memcpy_def bytes_at_def split: option.splits)

lemma wf_event_readable:
  "wf_event d \<Longrightarrow> \<not> (data_ptr d = None \<and> data_len d > 0) \<Longrightarrow>
   nat (data_len d) \<le> length (case data_ptr d of None \<Rightarrow> [] | Some b \<Rightarrow> b)"
  by (auto simp: wf_event_def split: option.splits)

lemma wf_active_block:
  assumes "wf_state s" "active (s_accumulator s)"
  obtains a blk where "buffer (s_accumulator s) = Addr a" "s_accum_buffer s = Addr a"
    "mem s a = Some blk" "length blk = MAX_FRAGMENTED_PAYLOAD"
  using assms
  by (cases "s_accum_buffer s"; cases "buffer (s_accumulator s)")
     (auto simp: wf_state_def Let_def split: option.splits)

lemma copy_chunk_eq:
  assumes wf: "wf_state s" and ev: "wf_event d"
    and blk: "buffer (s_accumulator s) = Addr a" "mem s a = Some blk"
      "length blk = MAX_FRAGMENTED_PAYLOAD"
  shows "copy_chunk d s =
     (let acc = s_accumulator s;
          off = nat (payload_offset d);
          n = nat (data_len d);
          m1 = (mem s)(a \<mapsto> take off blk @ bytes_at (data_ptr d) n @ drop (off + n) blk);
          s1 = s\<lparr>mem := m1, s_accumulator := acc\<lparr>received := off + n\<rparr>\<rparr>
      in if data_ptr d = None \<and> data_len d > 0 then Break (ws_accumulator_reset s)
         else if off + n > capacity acc \<or> off + n > expected_len acc
         then Break (ws_accumulator_reset s)
         else if off + n < expected_len acc then Break s1
         else Echo (s1\<lparr>s_accumulator := (s_accumulator s1)\<lparr>active := False\<rparr>\<rparr>)
                (opcode acc) (heap_bytes m1 (Addr a) (expected_len acc)) (expected_len acc))"
proof -
  have cap: "capacity (s_accumulator s) \<le> length blk"
    using wf blk by (simp add: wf_state_def Let_def)
  show ?thesis
  proof (cases "data_ptr d = None \<and> data_len d > 0")
    case True
    then show ?thesis by (simp add: copy_chunk_def Let_def)
  next
    case False
    note rd = wf_event_readable [OF ev False]
    from False have nd: "(data_ptr d = None \<and> data_len d > 0) = False"
      by simp
    show ?thesis
    proof (cases "nat (payload_offset d) + nat (data_len d) > capacity (s_accumulator s) \<or>
        nat (payload_offset d) + nat (data_len d) > expected_len (s_accumulator s)")
      case True
      then show ?thesis
        by (auto simp: copy_chunk_def Let_def wf_event_sizes [OF ev] nd)
    next
      case inb: False
      then have "nat (payload_offset d) + nat (data_len d) \<le> length blk"
        using cap by simp
      from memcpy_ok [of "mem s" a blk "nat (payload_offset d)" "nat (data_len d)" "data_ptr d",
          OF blk(2) this rd] inb show ?thesis
        by (simp add: copy_chunk_def Let_def wf_event_sizes [OF ev] blk(1) nd)
    qed
  qed
qed

lemma length_fresh_block: "length fresh_block = MAX_FRAGMENTED_PAYLOAD"
  by (simp add: fresh_block_def)

lemma wf_reset: "wf_state s \<Longrightarrow> wf_state (ws_accumulator_reset s)"
  by (simp add: wf_state_def ws_accumulator_reset_def Let_def)

lemma wf_alloc:
  assumes "wf_state s" "s_accum_buffer s = NULL"
  shows "wf_state (s\<lparr>s_accum_buffer := mres, mem := malloc_block mres (mem s)\<rparr>)"
  using assms
  by (cases mres) (auto simp: wf_state_def Let_def malloc_block_def length_fresh_block)

lemma wf_prepare:
  assumes "wf_state s" "ws_accumulator_prepare mres tlen opc s = (err, s1)"
  shows "wf_state s1"
proof (cases "tlen = 0 \<or> tlen > MAX_FRAGMENTED_PAYLOAD")
  case True
  with assms show ?thesis
    by (auto simp: ws_accumulator_prepare_def)
next
  case False
  show ?thesis
  proof (cases "s_accum_buffer s = NULL")
    case True
    note al = wf_alloc [OF assms(1) True, of mres]
    from assms(2) False True al show ?thesis
      by (cases mres) (auto simp: ws_accumulator_prepare_def Let_def wf_state_def)
  next
    case nn: False
    with assms False show ?thesis
      by (auto simp: ws_accumulator_prepare_def Let_def wf_state_def split: ptr.splits)
  qed
qed

lemma prepare_ok:
  assumes "ws_accumulator_prepare mres tlen opc s = (ESP_OK, s1)" "tlen > 0"
  shows "active (s_accumulator s1)" "expected_len (s_accumulator s1) = tlen"
    "opcode (s_accumulator s1) = opc" "received (s_accumulator s1) = 0"
  using assms
  by (auto simp: ws_accumulator_prepare_def Let_def split: if_splits)

lemma wf_ensure_buffer:
  assumes "wf_state s"
  shows "ensure_buffer mres s = Stop s1 \<Longrightarrow> s1 = s"
    and "ensure_buffer mres s = Go s1 \<Longrightarrow> wf_state s1"
  using assms wf_alloc [of s mres]
  by (auto simp: ensure_buffer_def split: if_splits)

lemma wf_prepare_for_chunk:
  assumes "wf_state s"
  shows "prepare_for_chunk mres d tlen opc s = Stop s1 \<Longrightarrow> wf_state s1"
    and "prepare_for_chunk mres d tlen opc s = Go s1 \<Longrightarrow> wf_state s1 \<and> active (s_accumulator s1)"
proof -
  have r: "wf_state (ws_accumulator_reset s)"
    using assms by (rule wf_reset)
  obtain e1 t1 where p1: "ws_accumulator_prepare mres tlen opc s = (e1, t1)"
    by (cases "ws_accumulator_prepare mres tlen opc s")
  obtain e2 t2 where p2: "ws_accumulator_prepare mres tlen opc (ws_accumulator_reset s) = (e2, t2)"
    by (cases "ws_accumulator_prepare mres tlen opc (ws_accumulator_reset s)")
  note w1 = wf_prepare [OF assms p1] and w2 = wf_prepare [OF r p2]
  show "prepare_for_chunk mres d tlen opc s = Stop s1 \<Longrightarrow> wf_state s1"
    using assms w1 w2 wf_reset [of t1] wf_reset [of t2] wf_reset [of s]
    by (auto simp: prepare_for_chunk_def Let_def p1 p2 split: if_splits)
  show "prepare_for_chunk mres d tlen opc s = Go s1 \<Longrightarrow> wf_state s1 \<and> active (s_accumulator s1)"
    using assms w1 w2
    by (auto simp: prepare_for_chunk_def Let_def p1 p2 split: if_splits)
qed

lemma prepare_for_chunk_expected:
  assumes "prepare_for_chunk mres d tlen opc s0 = Go s" "0 < tlen"
  shows "expected_len (s_accumulator s) = tlen \<and> active (s_accumulator s)"
proof -
  obtain e1 t1 where p1: "ws_accumulator_prepare mres tlen opc s0 = (e1, t1)"
    by (cases "ws_accumulator_prepare mres tlen opc s0")
  obtain e2 t2 where p2: "ws_accumulator_prepare mres tlen opc (ws_accumulator_reset s0) = (e2, t2)"
    by (cases "ws_accumulator_prepare mres tlen opc (ws_accumulator_reset s0)")
  have g1: "expected_len (s_accumulator t1) = tlen" if "e1 = ESP_OK"
    using prepare_ok(2) [of mres tlen opc s0 t1] p1 that assms(2) by simp
  have g2: "expected_len (s_accumulator t2) = tlen" if "e2 = ESP_OK"
    using prepare_ok(2) [of mres tlen opc "ws_accumulator_reset s0" t2] p2 that assms(2) by simp
  from assms(1) g1 g2 show ?thesis
    by (auto simp: prepare_for_chunk_def p1 p2 split: if_splits)
qed

lemma memcpy_Some:
  assumes "memcpy m dst off src n = Some m1"
  obtains a blk blk1 where "dst = Addr a" "m a = Some blk" "m1 = m(a \<mapsto> blk1)"
    "length blk1 = length blk" "off + n \<le> length blk"
proof -
  from assms obtain a where a: "dst = Addr a"
    by (cases dst) (simp_all add: memcpy_def)
  from assms a obtain blk where b: "m a = Some blk"
    by (cases "m a") (simp_all add: memcpy_def)
  let ?bs = "case src of None \<Rightarrow> [] | Some b \<Rightarrow> b"
  from assms a b have c: "off + n \<le> length blk" "n \<le> length ?bs"
    and m1: "m1 = m(a \<mapsto> take off blk @ take n ?bs @ drop (off + n) blk)"
    by (auto simp: memcpy_def Let_def split: if_splits)
  from c have "length (take off blk @ take n ?bs @ drop (off + n) blk) = length blk"
    by simp
  from a b m1 this c(1) show thesis
    by (rule that)
qed

lemma wf_copy_chunk:
  assumes "wf_state s" "state_of (copy_chunk d s) = Some s1"
  shows "wf_state s1"
proof -
  let ?acc = "s_accumulator s"
  let ?off = "size_t_of_int (payload_offset d)"
  let ?n = "size_t_of_int (data_len d)"
  show ?thesis
  proof (cases "(data_ptr d = None \<and> data_len d > 0) \<or> size_t_add ?off ?n > capacity ?acc \<or>
      size_t_add ?off ?n > expected_len ?acc \<or> buffer ?acc = NULL")
    case True
    with assms(2) have "s1 = ws_accumulator_reset s"
      by (auto simp: copy_chunk_def Let_def split: if_splits)
    with assms(1) show ?thesis
      by (simp add: wf_reset)
  next
    case False
    show ?thesis
    proof (cases "memcpy (mem s) (buffer ?acc) ?off (data_ptr d) ?n")
      case None
      with False assms(2) show ?thesis
        by (auto simp: copy_chunk_def Let_def split: if_splits)
    next
      case (Some m1)
      from memcpy_Some [OF Some] obtain a blk blk1 where
        mm: "buffer ?acc = Addr a" "mem s a = Some blk" "m1 = (mem s)(a \<mapsto> blk1)"
          "length blk1 = length blk"
        by blast
      from False Some assms(2) have
        "s1 = s\<lparr>mem := m1, s_accumulator := ?acc\<lparr>received := size_t_add ?off ?n\<rparr>\<rparr> \<or>
         s1 = s\<lparr>mem := m1, s_accumulator := ?acc\<lparr>received := size_t_add ?off ?n, active := False\<rparr>\<rparr>"
        by (auto simp: copy_chunk_def Let_def split: if_splits)
      with False assms(1) mm show ?thesis
        by (auto simp: wf_state_def Let_def)
    qed
  qed
qed

lemma copy_chunk_no_fault:
  assumes "wf_state s" "wf_event d" "active (s_accumulator s)"
  shows "copy_chunk d s \<noteq> Fault"
proof -
  from wf_active_block [OF assms(1) assms(3)] obtain a blk where
    "buffer (s_accumulator s) = Addr a" "mem s a = Some blk" "length blk = MAX_FRAGMENTED_PAYLOAD"
    by blast
  from copy_chunk_eq [OF assms(1) assms(2) this] show ?thesis
    by (simp add: Let_def)
qed

lemma accumulate_cases:
  obtains (no_buffer) "ensure_buffer mres s = Stop s" "accumulate mres d tlen opc s = Break s"
  | (stopped) s1 s2 where "ensure_buffer mres s = Go s1"
      "prepare_for_chunk mres d tlen opc s1 = Stop s2" "accumulate mres d tlen opc s = Break s2"
  | (copied) s1 s2 where "ensure_buffer mres s = Go s1"
      "prepare_for_chunk mres d tlen opc s1 = Go s2"
      "accumulate mres d tlen opc s = copy_chunk d s2"
proof (cases "ensure_buffer mres s")
  case (Stop s1)
  then have "s1 = s"
    by (auto simp: ensure_buffer_def split: if_splits)
  with Stop show thesis
    by (intro no_buffer) (simp_all add: accumulate_def)
next
  case (Go s1)
  show thesis
  proof (cases "prepare_for_chunk mres d tlen opc s1")
    case (Stop s2)
    with Go show thesis
      by (intro stopped [of s1 s2]) (simp_all add: accumulate_def)
  next
    case g2: (Go s2)
    with Go show thesis
      by (intro copied [of s1 s2]) (simp_all add: accumulate_def)
  qed
qed

lemma accumulate_safe:
  assumes "wf_state s"
  shows "state_of (accumulate mres d tlen opc s) = Some s1 \<Longrightarrow> wf_state s1"
    and "wf_event d \<Longrightarrow> accumulate mres d tlen opc s \<noteq> Fault"
proof -
  show "wf_state s1" if h: "state_of (accumulate mres d tlen opc s) = Some s1"
  proof (cases rule: accumulate_cases [of mres s d tlen opc])
    case no_buffer
    with h assms show ?thesis by simp
  next
    case (stopped t1 t2)
    from wf_ensure_buffer(2) [OF assms stopped(1)] have "wf_state t1" .
    from wf_prepare_for_chunk(1) [OF this stopped(2)] stopped(3) h show ?thesis
      by simp
  next
    case (copied t1 t2)
    from wf_ensure_buffer(2) [OF assms copied(1)] have "wf_state t1" .
    from wf_prepare_for_chunk(2) [OF this copied(2)] have "wf_state t2"
      by simp
    from wf_copy_chunk [OF this] h copied(3) show ?thesis
      by simp
  qed
  show "accumulate mres d tlen opc s \<noteq> Fault" if ev: "wf_event d"
  proof (cases rule: accumulate_cases [of mres s d tlen opc])
    case no_buffer
    then show ?thesis by simp
  next
    case (stopped t1 t2)
    then show ?thesis by simp
  next
    case (copied t1 t2)
    from wf_ensure_buffer(2) [OF assms copied(1)] have "wf_state t1" .
    from wf_prepare_for_chunk(2) [OF this copied(2)] have "wf_state t2" "active (s_accumulator t2)"
      by simp_all
    from copy_chunk_no_fault [OF this(1) ev this(2)] copied(3) show ?thesis
      by simp
  qed
qed

lemma select_payload_safe:
  assumes "wf_state s"
  shows "state_of (select_payload e d opc s) = Some s1 \<Longrightarrow> wf_state s1"
    and "wf_event d \<Longrightarrow> select_payload e d opc s \<noteq> Fault"
  using assms accumulate_safe [OF assms]
  by (auto simp: select_payload_def Let_def split: if_splits)

lemma check_connection_state:
  assumes "state_of (check_connection e r) = Some s1"
  obtains s0 where "state_of r = Some s0" "s1 = s0 \<or> s1 = ws_accumulator_reset s0"
  using assms by (cases r) (auto simp: check_connection_def split: if_splits)

lemma check_connection_Fault: "check_connection e r = Fault \<longleftrightarrow> r = Fault"
  by (cases r) (auto simp: check_connection_def)

lemma handle_data_safe:
  assumes "wf_state s"
  shows "state_of (handle_data e d s) = Some s1 \<Longrightarrow> wf_state s1"
    and "wf_event d \<Longrightarrow> handle_data e d s \<noteq> Fault"
proof -
  have cc: "wf_state s1" if "state_of (check_connection e (select_payload e d opc s)) = Some s1" for opc
  proof -
    from check_connection_state [OF that] obtain s0 where
      s0: "state_of (select_payload e d opc s) = Some s0" "s1 = s0 \<or> s1 = ws_accumulator_reset s0"
      by blast
    from select_payload_safe(1) [OF assms s0(1)] s0(2) show ?thesis
      by (auto simp: wf_reset)
  qed
  show "state_of (handle_data e d s) = Some s1 \<Longrightarrow> wf_state s1"
    using assms wf_reset [OF assms] cc
    by (auto simp: handle_data_def split: if_splits option.splits)
  show "wf_event d \<Longrightarrow> handle_data e d s \<noteq> Fault"
    using select_payload_safe(2) [OF assms]
    by (auto simp: handle_data_def check_connection_Fault split: if_splits option.splits)
qed

subsection \<open>Rejected and restarted accumulations\<close>

lemma prepare_oversize:
  "MAX_FRAGMENTED_PAYLOAD < tlen \<Longrightarrow>
   ws_accumulator_prepare mres tlen opc s = (ESP_ERR_INVALID_SIZE, s)"
  by (simp add: ws_accumulator_prepare_def)

lemma accumulate_oversize_offset0:
  assumes "s_accum_buffer s \<noteq> NULL" "payload_offset d = 0" "MAX_FRAGMENTED_PAYLOAD < tlen"
  shows "accumulate mres d tlen opc s = Break s"
  using assms
  by (simp add: accumulate_def ensure_buffer_def prepare_for_chunk_def prepare_oversize)


lemma handle_data_oversize_offset0:
  assumes "test_running s" "connected_on_entry e" "s_accum_buffer s \<noteq> NULL"
    and "send_opcode_of (op_code d) = Some opc" "op_code d < 0x08"
    and "data_ptr d \<noteq> None" "payload_offset d = 0"
    and "data_len d < payload_len d" "payload_len d < 2 ^ 31"
    and "int MAX_FRAGMENTED_PAYLOAD < payload_len d"
  shows "handle_data e d s = Break s"
proof -
  have pl: "0 < payload_len d"
    using assms(10) by simp
  then have tl: "size_t_of_int (payload_len d) = nat (payload_len d)"
    using assms(9) by (simp add: size_t_of_int_nat)
  have big: "MAX_FRAGMENTED_PAYLOAD < nat (payload_len d)"
    using assms(10) by simp
  have "select_payload e d opc s = Break s"
    using pl assms(8) big
    by (simp add: select_payload_def Let_def tl accumulate_oversize_offset0 [OF assms(3) assms(7)])
  then show ?thesis
    using assms(1,2,4,5,6)
    by (simp add: handle_data_def check_connection_def not_le [symmetric])
qed

lemma prepare_fresh:
  assumes "s_accum_buffer s = Addr a" "0 < tlen" "tlen \<le> MAX_FRAGMENTED_PAYLOAD"
  shows "ws_accumulator_prepare mres tlen opc s =
     (ESP_OK, s\<lparr>s_accumulator := (s_accumulator s)
        \<lparr>buffer := Addr a, capacity := MAX_FRAGMENTED_PAYLOAD, expected_len := tlen,
         received := 0, opcode := opc, active := True\<rparr>\<rparr>)"
  using assms by (simp add: ws_accumulator_prepare_def Let_def)

lemma prepare_for_chunk_restart:
  assumes buf: "s_accum_buffer s = Addr a"
    and restart: "payload_offset d = 0 \<or> \<not> active (s_accumulator s) \<or>
      tlen \<noteq> expected_len (s_accumulator s)"
    and len: "0 < tlen" "tlen \<le> MAX_FRAGMENTED_PAYLOAD"
  shows "prepare_for_chunk mres d tlen opc s =
     Go (s\<lparr>s_accumulator := (s_accumulator s)
        \<lparr>buffer := Addr a, capacity := MAX_FRAGMENTED_PAYLOAD, expected_len := tlen,
         received := 0, opcode := opc, active := True\<rparr>\<rparr>)"
proof (cases "payload_offset d = 0 \<or> \<not> active (s_accumulator s)")
  case True
  then show ?thesis
    by (simp add: prepare_for_chunk_def prepare_fresh [OF buf len])
next
  case False
  have "s_accum_buffer (ws_accumulator_reset s) = Addr a"
    using buf by (simp add: ws_accumulator_reset_def)
  note p = prepare_fresh [OF this len]
  from False restart have "tlen \<noteq> expected_len (s_accumulator s)"
    by blast
  with False show ?thesis
    by (simp add: prepare_for_chunk_def p) (simp add: ws_accumulator_reset_def)
qed

lemma accumulate_restart:
  assumes wf: "wf_state s" and ev: "wf_event d"
    and buf: "s_accum_buffer s = Addr a" "mem s a = Some blk"
    and restart: "payload_offset d = 0 \<or> \<not> active (s_accumulator s) \<or>
      tlen \<noteq> expected_len (s_accumulator s)"
    and len: "0 < tlen" "tlen \<le> MAX_FRAGMENTED_PAYLOAD"
    and ptr: "\<not> (data_ptr d = None \<and> data_len d > 0)"
    and inb: "nat (payload_offset d) + nat (data_len d) \<le> tlen"
  shows "accumulate mres d tlen opc s =
     (let off = nat (payload_offset d);
          n = nat (data_len d);
          blk1 = take off blk @ bytes_at (data_ptr d) n @ drop (off + n) blk;
          s1 = s\<lparr>mem := (mem s)(a \<mapsto> blk1),
                 s_accumulator := (s_accumulator s)
                   \<lparr>buffer := Addr a, capacity := MAX_FRAGMENTED_PAYLOAD, expected_len := tlen,
                    received := off + n, opcode := opc, active := off + n < tlen\<rparr>\<rparr>
      in if off + n < tlen then Break s1 else Echo s1 opc (take tlen blk1) tlen)"
proof -
  let ?s2 = "s\<lparr>s_accumulator := (s_accumulator s)
        \<lparr>buffer := Addr a, capacity := MAX_FRAGMENTED_PAYLOAD, expected_len := tlen,
         received := 0, opcode := opc, active := True\<rparr>\<rparr>"
  have e: "ensure_buffer mres s = Go s"
    using buf by (simp add: ensure_buffer_def)
  have p: "prepare_for_chunk mres d tlen opc s = Go ?s2"
    using buf(1) restart len by (rule prepare_for_chunk_restart)
  from wf_prepare_for_chunk(2) [OF wf p] have wf2: "wf_state ?s2"
    by simp
  from wf buf have lb: "length blk = MAX_FRAGMENTED_PAYLOAD"
    by (simp add: wf_state_def Let_def)
  have "copy_chunk d ?s2 =
     (let off = nat (payload_offset d);
          n = nat (data_len d);
          blk1 = take off blk @ bytes_at (data_ptr d) n @ drop (off + n) blk;
          s1 = s\<lparr>mem := (mem s)(a \<mapsto> blk1),
                 s_accumulator := (s_accumulator s)
                   \<lparr>buffer := Addr a, capacity := MAX_FRAGMENTED_PAYLOAD, expected_len := tlen,
                    received := off + n, opcode := opc, active := off + n < tlen\<rparr>\<rparr>
      in if off + n < tlen then Break s1 else Echo s1 opc (take tlen blk1) tlen)"
    using ptr inb len
    by (subst copy_chunk_eq [OF wf2 ev, of a blk])
       (auto simp: buf lb Let_def heap_bytes_def)
  then show ?thesis
    by (simp add: accumulate_def e p)
qed

lemma send_opcode_of_Some: "send_opcode_of x = Some opc \<Longrightarrow> \<not> 0x08 \<le> x"
  by (auto simp: send_opcode_of_def word_le_nat_alt split: if_splits)

lemma handle_data_fragmented:
  assumes "test_running s" "connected_on_entry e" "send_opcode_of (op_code d) = Some opc"
    and "\<not> (data_ptr d = None \<and> data_len d > 0)" "wf_event d" "0 < payload_len d"
    and "data_len d < payload_len d \<or> 0 < payload_offset d"
  shows "handle_data e d s =
     check_connection e (accumulate (malloc_result e) d (nat (payload_len d)) opc s)"
proof -
  have sp: "select_payload e d opc s = accumulate (malloc_result e) d (nat (payload_len d)) opc s"
    using assms(6,7) wf_event_sizes(3) [OF assms(5)]
    by (auto simp: select_payload_def Let_def)
  have nd: "(data_ptr d = None \<and> data_len d > 0) = False"
    using assms(4) by simp
  show ?thesis
    using assms(1,2,3) send_opcode_of_Some [OF assms(3)]
    by (simp add: handle_data_def nd sp)
qed

lemma bytes_at_length:
  "wf_event d \<Longrightarrow> \<not> (data_ptr d = None \<and> data_len d > 0) \<Longrightarrow>
   length (bytes_at (data_ptr d) (nat (data_len d))) = nat (data_len d)"
  by (auto simp: wf_event_def bytes_at_def split: option.splits)

lemma handle_data_restart:
  assumes wf: "wf_state s" and ev: "wf_event d"
    and run: "test_running s" "connected_on_entry e"
    and buf: "s_accum_buffer s = Addr a" "mem s a = Some blk"
    and restart: "payload_offset d = 0 \<or> \<not> active (s_accumulator s) \<or>
      nat (payload_len d) \<noteq> expected_len (s_accumulator s)"
    and opc: "send_opcode_of (op_code d) = Some opc"
    and ptr: "\<not> (data_ptr d = None \<and> data_len d > 0)"
    and frag: "data_len d < payload_len d \<or> 0 < payload_offset d"
    and len: "0 < payload_len d" "nat (payload_len d) \<le> MAX_FRAGMENTED_PAYLOAD"
    and inb: "payload_offset d + data_len d \<le> payload_len d"
  shows "handle_data e d s =
     (let off = nat (payload_offset d);
          n = nat (data_len d);
          tlen = nat (payload_len d);
          blk1 = take off blk @ bytes_at (data_ptr d) n @ drop (off + n) blk;
          s1 = s\<lparr>mem := (mem s)(a \<mapsto> blk1),
                 s_accumulator := (s_accumulator s)
                   \<lparr>buffer := Addr a, capacity := MAX_FRAGMENTED_PAYLOAD, expected_len := tlen,
                    received := off + n, opcode := opc, active := off + n < tlen\<rparr>\<rparr>
      in if off + n < tlen then Break s1
         else if connected_before_echo e then Echo s1 opc (take tlen blk1) tlen
         else Break (ws_accumulator_reset s1))"
proof -
  have tl: "0 < nat (payload_len d)"
    using len(1) by simp
  have inb': "nat (payload_offset d) + nat (data_len d) \<le> nat (payload_len d)"
    using inb ev unfolding wf_event_def by linarith
  note hd = handle_data_fragmented [OF run opc ptr ev len(1) frag]
  note ac = accumulate_restart [OF wf ev buf restart tl len(2) ptr inb', of "malloc_result e" opc]
  show ?thesis
    by (simp add: hd ac Let_def check_connection_def)
qed

lemma handle_data_oversize_changed:
  assumes "wf_state s" "test_running s" "connected_on_entry e"
    and "active (s_accumulator s)" "0 < payload_offset d"
    and "send_opcode_of (op_code d) = Some opc"
    and "\<not> (data_ptr d = None \<and> data_len d > 0)" "wf_event d"
    and "int MAX_FRAGMENTED_PAYLOAD < payload_len d"
  shows "handle_data e d s = Break (ws_accumulator_reset s)"
proof -
  have pos: "0 < payload_len d"
    using assms(9) by simp
  have big: "MAX_FRAGMENTED_PAYLOAD < nat (payload_len d)"
    using assms(9) by simp
  from assms(1) have "expected_len (s_accumulator s) \<le> MAX_FRAGMENTED_PAYLOAD"
    by (simp add: wf_state_def Let_def)
  with big have ne: "nat (payload_len d) \<noteq> expected_len (s_accumulator s)"
    by simp
  from wf_active_block [OF assms(1,4)] obtain a where "s_accum_buffer s = Addr a"
    by blast
  then have "accumulate (malloc_result e) d (nat (payload_len d)) opc s =
      Break (ws_accumulator_reset s)"
    using assms(4,5) ne big
    by (simp add: accumulate_def ensure_buffer_def prepare_for_chunk_def prepare_oversize)
  then show ?thesis
    using handle_data_fragmented [OF assms(2,3,6,7,8) pos disjI2 [OF assms(5)]]
    by (simp add: check_connection_def)
qed

lemma handle_data_continue:
  assumes "test_running s" "connected_on_entry e" "send_opcode_of (op_code d) = Some opc"
    and "\<not> (data_ptr d = None \<and> data_len d > 0)" "wf_event d"
    and "0 < payload_offset d" "active (s_accumulator s)"
    and "nat (payload_len d) = expected_len (s_accumulator s)" "0 < payload_len d"
    and "s_accum_buffer s \<noteq> NULL" "buffer (s_accumulator s) \<noteq> NULL"
  shows "handle_data e d s = check_connection e (copy_chunk d s)"
proof -
  have "accumulate (malloc_result e) d (nat (payload_len d)) opc s = copy_chunk d s"
    using assms(6,7,8,10,11)
    by (simp add: accumulate_def ensure_buffer_def prepare_for_chunk_def)
  with handle_data_fragmented [OF assms(1,2,3,4,5,9) disjI2 [OF assms(6)]] show ?thesis
    by simp
qed



subsection \<open>The retry loop\<close>

lemma retry_step_fail:
  assumes "sent < 0" "conn j" "sendf j < 0"
  shows "echo_retry_loop conn sendf sent (min j 6) j delays =
     echo_retry_loop conn sendf (sendf j) (min (Suc j) 6) (Suc j) (delays @ [retry_delay j])"
proof (cases "j < 6")
  case True
  then have "min j 6 = j" "min (Suc j) 6 = Suc j"
    by simp_all
  with assms True show ?thesis
    by (subst echo_retry_loop.simps) (simp add: backoff_def retry_delay_def)
next
  case False
  then have "min j 6 = 6" "min (Suc j) 6 = 6"
    by simp_all
  with assms False show ?thesis
    by (subst echo_retry_loop.simps) (simp add: backoff_def retry_delay_def)
qed

lemma retry_succeeds_from:
  assumes "\<forall>i. j \<le> i \<and> i < k \<longrightarrow> sendf i < 0" "\<forall>i. j \<le> i \<and> i \<le> k \<longrightarrow> conn i"
    and "0 \<le> sendf k" "j \<le> k" "sent < 0"
  shows "echo_retry_loop conn sendf sent (min j 6) j delays =
     Some (sendf k, min k 6, Suc k, delays @ map retry_delay [j..<k])"
  using assms
proof (induction "k - j" arbitrary: j sent delays)
  case 0
  then have "j = k"
    by simp
  with 0 show ?case
    by (subst echo_retry_loop.simps) simp
next
  case (Suc m)
  then have jk: "j < k"
    by simp
  with Suc.prems have f: "sendf j < 0" "conn j"
    by simp_all
  have "echo_retry_loop conn sendf (sendf j) (min (Suc j) 6) (Suc j) (delays @ [retry_delay j]) =
      Some (sendf k, min k 6, Suc k, (delays @ [retry_delay j]) @ map retry_delay [Suc j..<k])"
    using Suc.hyps(2) Suc.prems jk f(1)
    by (intro Suc.hyps(1)) auto
  with retry_step_fail [of sent conn j sendf delays, OF Suc.prems(5) f(2) f(1)] jk show ?case
    by (simp add: upt_conv_Cons)
qed

lemma retry_stops_from:
  assumes "\<forall>i. j \<le> i \<and> i < k \<longrightarrow> sendf i < 0 \<and> conn i" "\<not> conn k" "j \<le> k" "sent < 0"
  shows "echo_retry_loop conn sendf sent (min j 6) j delays =
     Some (if j = k then sent else sendf (k - 1), min k 6, k, delays @ map retry_delay [j..<k])"
  using assms
proof (induction "k - j" arbitrary: j sent delays)
  case 0
  then have "j = k"
    by simp
  with 0 show ?case
    by (subst echo_retry_loop.simps) simp
next
  case (Suc m)
  then have jk: "j < k"
    by simp
  with Suc.prems have f: "sendf j < 0" "conn j"
    by simp_all
  have "echo_retry_loop conn sendf (sendf j) (min (Suc j) 6) (Suc j) (delays @ [retry_delay j]) =
      Some (if Suc j = k then sendf j else sendf (k - 1), min k 6, k,
        (delays @ [retry_delay j]) @ map retry_delay [Suc j..<k])"
    using Suc.hyps(2) Suc.prems jk f(1)
    by (intro Suc.hyps(1)) auto
  with retry_step_fail [of sent conn j sendf delays, OF Suc.prems(4) f(2) f(1)] jk show ?case
    by (auto simp add: upt_conv_Cons)
qed

lemma retry_never_returns:
  assumes "echo_retry_loop conn sendf sent attempt calls delays = Some r"
  shows "\<not> (sent < 0 \<and> (\<forall>i\<ge>calls. conn i \<and> sendf i < 0))"
proof (rule echo_retry_loop.raw_induct
    [where P = "\<lambda>c sf se a ca d r. \<not> (se < 0 \<and> (\<forall>i\<ge>ca. c i \<and> sf i < 0))", OF _ assms])
  fix f :: "(nat \<Rightarrow> bool) \<Rightarrow> (nat \<Rightarrow> int) \<Rightarrow> int \<Rightarrow> nat \<Rightarrow> nat \<Rightarrow> nat list \<Rightarrow>
    (int \<times> nat \<times> nat \<times> nat list) option"
  fix c sf se a ca d y
  assume IH: "\<And>c sf se a ca d y. f c sf se a ca d = Some y \<Longrightarrow>
      \<not> (se < 0 \<and> (\<forall>i\<ge>ca. c i \<and> sf i < 0))"
  assume body: "(if se < 0 \<and> c ca
        then let sent1 = sf ca
             in if 0 \<le> sent1 then Some (sent1, a, ca + 1, d)
                else if a < length backoff
                     then f c sf sent1 (a + 1) (ca + 1) (d @ [backoff ! a * 1000])
                     else f c sf sent1 a (ca + 1) (d @ [32 * 1000])
        else Some (se, a, ca, d)) = Some y"
  show "\<not> (se < 0 \<and> (\<forall>i\<ge>ca. c i \<and> sf i < 0))"
  proof
    assume h: "se < 0 \<and> (\<forall>i\<ge>ca. c i \<and> sf i < 0)"
    then have now: "sf ca < 0" "c ca" and later: "\<forall>i\<ge>ca + 1. c i \<and> sf i < 0"
      by simp_all
    with body h have "\<exists>a' d'. f c sf (sf ca) a' (ca + 1) d' = Some y"
      by (auto simp: Let_def split: if_splits)
    then obtain a' d' where "f c sf (sf ca) a' (ca + 1) d' = Some y"
      by blast
    from IH [OF this] now later show False
      by simp
  qed
qed

lemma retry_never_returns_None:
  assumes "sent < 0" "\<forall>i\<ge>calls. conn i \<and> sendf i < 0"
  shows "echo_retry_loop conn sendf sent attempt calls delays = None"
proof (cases "echo_retry_loop conn sendf sent attempt calls delays")
  case None
  then show ?thesis .
next
  case (Some r)
  from retry_never_returns [OF Some] assms show ?thesis
    by simp
qed

subsection \<open>The accumulator between invocations\<close>

lemma wf_state_bounds:
  "wf_state s \<Longrightarrow>
   received (s_accumulator s) \<le> expected_len (s_accumulator s) \<and>
   expected_len (s_accumulator s) \<le> capacity (s_accumulator s)"
  by (simp add: wf_state_def Let_def)

lemma echo_Returned:
  "echo e s opc payload n = Some (Returned s1 l) \<Longrightarrow> s1 = s"
  by (auto simp: echo_def split: option.splits prod.splits)

lemma handler_data_state:
  assumes "websocket_event_handler e WEBSOCKET_EVENT_DATA d s = Some (Returned s1 l)"
  shows "state_of (handle_data e d s) = Some s1"
  using assms
  by (cases "handle_data e d s") (auto simp: websocket_event_handler_def dest: echo_Returned)

lemma handler_preserves_wf:
  assumes "wf_state s" "websocket_event_handler e ev d s = Some (Returned s1 l)"
  shows "wf_state s1"
proof (cases ev)
  case WEBSOCKET_EVENT_DATA
  with assms(2) have "state_of (handle_data e d s) = Some s1"
    by (simp add: handler_data_state)
  with assms(1) show ?thesis
    by (rule handle_data_safe(1))
qed (use assms in \<open>auto simp: websocket_event_handler_def wf_state_def Let_def
      ws_accumulator_reset_def post_test_done_def\<close>)

lemma teardown_event_inactive:
  assumes "ev = WEBSOCKET_EVENT_DISCONNECTED \<or> ev = WEBSOCKET_EVENT_ERROR \<or>
    ev = WEBSOCKET_EVENT_FINISH"
  shows "\<exists>s1. websocket_event_handler e ev d s = Some (Returned s1 None) \<and>
    \<not> active (s_accumulator s1) \<and> \<not> test_running s1"
  using assms
  by (auto simp: websocket_event_handler_def ws_accumulator_reset_def post_test_done_def)

lemma copy_chunk_active:
  assumes "state_of (copy_chunk d s) = Some s1" "active (s_accumulator s1)"
  shows "expected_len (s_accumulator s1) = expected_len (s_accumulator s) \<and>
    opcode (s_accumulator s1) = opcode (s_accumulator s) \<and>
    received (s_accumulator s1) =
      size_t_add (size_t_of_int (payload_offset d)) (size_t_of_int (data_len d))"
  using assms
  by (auto simp: copy_chunk_def Let_def ws_accumulator_reset_def
      split: if_splits option.splits)

lemma prepare_for_chunk_inactive:
  assumes "\<not> active (s_accumulator s)"
  shows "prepare_for_chunk mres d tlen opc s = Stop s2 \<Longrightarrow> \<not> active (s_accumulator s2)"
    and "prepare_for_chunk mres d tlen opc s = Go s2 \<Longrightarrow>
      expected_len (s_accumulator s2) = tlen \<and> opcode (s_accumulator s2) = opc"
proof -
  obtain err t where p: "ws_accumulator_prepare mres tlen opc s = (err, t)"
    by (cases "ws_accumulator_prepare mres tlen opc s")
  have bad: "\<not> active (s_accumulator t)" if "err \<noteq> ESP_OK"
    using p that assms by (auto simp: ws_accumulator_prepare_def Let_def split: if_splits)
  have good: "expected_len (s_accumulator t) = tlen \<and> opcode (s_accumulator t) = opc"
    if "err = ESP_OK" "active (s_accumulator t)"
    using p that assms by (auto simp: ws_accumulator_prepare_def Let_def split: if_splits)
  show "prepare_for_chunk mres d tlen opc s = Stop s2 \<Longrightarrow> \<not> active (s_accumulator s2)"
    using assms bad
    by (auto simp: prepare_for_chunk_def p ws_accumulator_reset_def split: if_splits)
  show "prepare_for_chunk mres d tlen opc s = Go s2 \<Longrightarrow>
      expected_len (s_accumulator s2) = tlen \<and> opcode (s_accumulator s2) = opc"
    using assms good
    by (auto simp: prepare_for_chunk_def p split: if_splits)
qed

lemma ensure_buffer_accumulator:
  "ensure_buffer mres s = Go s1 \<Longrightarrow> s_accumulator s1 = s_accumulator s"
  by (auto simp: ensure_buffer_def split: if_splits)

lemma accumulate_activates:
  assumes "\<not> active (s_accumulator s)" "state_of (accumulate mres d tlen opc s) = Some s1"
    and "active (s_accumulator s1)"
  shows "expected_len (s_accumulator s1) = tlen \<and> opcode (s_accumulator s1) = opc \<and>
    received (s_accumulator s1) =
      size_t_add (size_t_of_int (payload_offset d)) (size_t_of_int (data_len d))"
proof (cases rule: accumulate_cases [of mres s d tlen opc])
  case no_buffer
  with assms show ?thesis by simp
next
  case (stopped t1 t2)
  from ensure_buffer_accumulator [OF stopped(1)] assms(1) have "\<not> active (s_accumulator t1)"
    by simp
  from prepare_for_chunk_inactive(1) [OF this stopped(2)] stopped(3) assms(2,3) show ?thesis
    by simp
next
  case (copied t1 t2)
  from ensure_buffer_accumulator [OF copied(1)] assms(1) have "\<not> active (s_accumulator t1)"
    by simp
  from prepare_for_chunk_inactive(2) [OF this copied(2)]
  have t2: "expected_len (s_accumulator t2) = tlen \<and> opcode (s_accumulator t2) = opc" .
  from assms(2) copied(3) have "state_of (copy_chunk d t2) = Some s1"
    by simp
  from copy_chunk_active [OF this assms(3)] t2 show ?thesis
    by simp
qed

lemma activation_only_by_prepare:
  assumes "\<not> active (s_accumulator s)"
    and "websocket_event_handler e ev d s = Some (Returned s1 l)"
    and "active (s_accumulator s1)"
  shows "ev = WEBSOCKET_EVENT_DATA \<and>
    ((payload_len d > 0 \<and> payload_len d > data_len d) \<or> payload_offset d > 0) \<and>
    send_opcode_of (op_code d) = Some (opcode (s_accumulator s1)) \<and>
    expected_len (s_accumulator s1) =
      size_t_of_int (if payload_len d \<noteq> 0 then payload_len d else data_len d) \<and>
    received (s_accumulator s1) =
      size_t_add (size_t_of_int (payload_offset d)) (size_t_of_int (data_len d))"
proof -
  have ev: "ev = WEBSOCKET_EVENT_DATA"
    using assms
    by (cases ev) (auto simp: websocket_event_handler_def ws_accumulator_reset_def
        post_test_done_def)
  with assms(2) have st: "state_of (handle_data e d s) = Some s1"
    by (simp add: handler_data_state)
  from st assms(1,3) obtain opc where
    opc: "send_opcode_of (op_code d) = Some opc"
    and cc: "state_of (check_connection e (select_payload e d opc s)) = Some s1"
    by (auto simp: handle_data_def ws_accumulator_reset_def split: if_splits option.splits)
  from check_connection_state [OF cc] obtain s0 where
    s0: "state_of (select_payload e d opc s) = Some s0" "s1 = s0 \<or> s1 = ws_accumulator_reset s0"
    by blast
  from s0(2) assms(3) have eq: "s1 = s0"
    by (auto simp: ws_accumulator_reset_def)
  let ?tlen = "size_t_of_int (if payload_len d \<noteq> 0 then payload_len d else data_len d)"
  let ?frag = "(payload_len d > 0 \<and> payload_len d > data_len d) \<or> payload_offset d > 0"
  have frag: "?frag \<and> 0 < ?tlen"
  proof (rule ccontr)
    assume "\<not> (?frag \<and> 0 < ?tlen)"
    with s0(1) have "s0 = s"
      by (auto simp: select_payload_def Let_def split: if_splits)
    with eq assms(1,3) show False
      by simp
  qed
  with s0(1) eq have "state_of (accumulate (malloc_result e) d ?tlen opc s) = Some s1"
    by (auto simp: select_payload_def Let_def split: if_splits)
  from accumulate_activates [OF assms(1) this assms(3)] ev frag opc show ?thesis
    by simp
qed

subsection \<open>The concrete inputs evaluated\<close>

lemmas eval_defs = ensure_buffer_def prepare_for_chunk_def copy_chunk_def
  ws_accumulator_prepare_def ws_accumulator_reset_def memcpy_def size_t_of_int_def
  size_t_add_def MAX_FRAGMENTED_PAYLOAD_def malloc_block_def heap_bytes_def bytes_at_def
  length_fresh_block zero_accumulator_def

lemma env_ok_simps [simp]:
  "connected_on_entry env_ok" "connected_before_echo env_ok" "malloc_result env_ok = NULL"
  by (simp_all add: env_ok_def)

lemma env_lost_simps [simp]:
  "\<not> connected_on_entry env_lost" "malloc_result env_lost = NULL"
  by (simp_all add: env_lost_def env_ok_def)

lemma s_ready_simps [simp]: "test_running s_ready"
  by (simp add: s_ready_def)

lemma s_mid_simps [simp]:
  "test_running s_mid"
  "s_accumulator s_mid =
     \<lparr>buffer = Addr 0, capacity = MAX_FRAGMENTED_PAYLOAD, expected_len = 4, received = 2,
      opcode = 0x2, active = True\<rparr>"
  by (simp_all add: s_mid_def)

lemma chunk1_simps [simp]:
  "data_ptr chunk1 = Some [1, 2]" "data_len chunk1 = 2" "op_code chunk1 = 2"
  "payload_len chunk1 = 4" "payload_offset chunk1 = 0"
  by (simp_all add: chunk1_def)

lemma chunk2_simps [simp]:
  "data_ptr chunk2 = Some [3, 4]" "data_len chunk2 = 2" "op_code chunk2 = 2"
  "payload_len chunk2 = 4" "payload_offset chunk2 = 2"
  by (simp_all add: chunk2_def)

lemma chunk_beyond_simps [simp]:
  "data_ptr chunk_beyond = Some [3, 4, 5]" "data_len chunk_beyond = 3" "op_code chunk_beyond = 2"
  "payload_len chunk_beyond = 4" "payload_offset chunk_beyond = 2"
  by (simp_all add: chunk_beyond_def)

lemma s_mid_buffer [simp]: "s_accum_buffer s_mid = Addr 0"
  by (simp add: s_mid_def)

lemma chunk_oversize_simps [simp]:
  "data_ptr chunk_oversize = Some [9]" "data_len chunk_oversize = 1" "op_code chunk_oversize = 2"
  "payload_len chunk_oversize = 70000" "payload_offset chunk_oversize = 0"
  by (simp_all add: chunk_oversize_def)

lemma chunk_oversize_text_simps [simp]:
  "data_ptr chunk_oversize_text = Some [9]" "data_len chunk_oversize_text = 1"
  "op_code chunk_oversize_text = 1" "payload_len chunk_oversize_text = 65538"
  "payload_offset chunk_oversize_text = 0"
  by (simp_all add: chunk_oversize_text_def)

lemma chunk_oversize_restart_simps [simp]:
  "data_ptr chunk_oversize_restart = Some [9, 9]" "data_len chunk_oversize_restart = 2"
  "op_code chunk_oversize_restart = 1" "payload_len chunk_oversize_restart = 100000"
  "payload_offset chunk_oversize_restart = 0"
  by (simp_all add: chunk_oversize_restart_def)

lemma chunk_new_text_simps [simp]:
  "data_ptr chunk_new_text = Some [7]" "data_len chunk_new_text = 1"
  "op_code chunk_new_text = 1" "payload_len chunk_new_text = 3"
  "payload_offset chunk_new_text = 0"
  by (simp_all add: chunk_new_text_def)

lemma s_mid_mem [simp]: "mem s_mid 0 = Some ([1, 2] @ drop 2 fresh_block)"
  by (simp add: s_mid_def)

lemma chunk_resize_simps [simp]:
  "data_ptr chunk_resize = Some [7]" "data_len chunk_resize = 1"
  "op_code chunk_resize = 2" "payload_len chunk_resize = 3"
  "payload_offset chunk_resize = 2"
  by (simp_all add: chunk_resize_def)

lemma chunk_resize_over_simps [simp]:
  "data_ptr chunk_resize_over = Some [7]" "data_len chunk_resize_over = 1"
  "op_code chunk_resize_over = 2" "payload_len chunk_resize_over = 70000"
  "payload_offset chunk_resize_over = 2"
  by (simp_all add: chunk_resize_over_def)

lemma wf_chunks_resize: "wf_event chunk_resize" "wf_event chunk_resize_over"
  by (simp_all add: wf_event_def)

lemma send_opcode_of_simps [simp]:
  "send_opcode_of 0 = Some 0" "send_opcode_of 1 = Some 1" "send_opcode_of 2 = Some 2"
  by (simp_all add: send_opcode_of_def WS_TRANSPORT_OPCODES_CONT_def
      WS_TRANSPORT_OPCODES_TEXT_def WS_TRANSPORT_OPCODES_BINARY_def)

lemma wf_s_ready: "wf_state s_ready"
  by (simp add: wf_state_def s_ready_def eval_defs)

lemma wf_s_mid: "wf_state s_mid"
  by (simp add: wf_state_def s_mid_def eval_defs)

lemma wf_chunks: "wf_event chunk1" "wf_event chunk2" "wf_event chunk_beyond"
  "wf_event chunk_new_text"
  by (simp_all add: wf_event_def)

text \<open>The first chunk takes the globals from \<open>s_ready\<close> to \<open>s_mid\<close>.\<close>

lemma accumulate_chunk1: "accumulate NULL chunk1 4 2 s_ready = Break s_mid"
  by (simp add: accumulate_def eval_defs s_ready_def s_mid_def Let_def flip: numeral_2_eq_2)

lemma select_payload_chunk1: "select_payload env_ok chunk1 2 s_ready = Break s_mid"
  by (simp add: select_payload_def size_t_of_int_def accumulate_chunk1)

lemma handle_data_chunk1: "handle_data env_ok chunk1 s_ready = Break s_mid"
  by (simp add: handle_data_def select_payload_chunk1 check_connection_def)

lemma handler_chunk1:
  "websocket_event_handler env_ok WEBSOCKET_EVENT_DATA chunk1 s_ready = Some (Returned s_mid None)"
  by (simp add: websocket_event_handler_def handle_data_chunk1)

text \<open>A second chunk that declares 10 bytes takes the globals from \<open>s_mid\<close> to \<open>s_longer\<close>.\<close>

lemma chunk_longer_simps [simp]:
  "data_ptr chunk_longer = Some [3, 4, 5]" "data_len chunk_longer = 3"
  "op_code chunk_longer = 2" "payload_len chunk_longer = 10"
  "payload_offset chunk_longer = 2"
  by (simp_all add: chunk_longer_def)

lemma chunk_beyond_new_simps [simp]:
  "data_ptr chunk_beyond_new = Some [3, 4, 5]" "data_len chunk_beyond_new = 3"
  "op_code chunk_beyond_new = 2" "payload_len chunk_beyond_new = 3"
  "payload_offset chunk_beyond_new = 2"
  by (simp_all add: chunk_beyond_new_def)


lemma s_longer_simps [simp]:
  "s_accumulator s_longer =
     \<lparr>buffer = Addr 0, capacity = MAX_FRAGMENTED_PAYLOAD, expected_len = 10, received = 5,
      opcode = 0x2, active = True\<rparr>"
  "mem s_longer 0 = Some ([1, 2, 3, 4, 5] @ drop 5 fresh_block)"
  by (simp_all add: s_longer_def)





lemma cont_simps [simp]:
  "data_ptr cont1 = Some [1, 2]" "data_len cont1 = 2" "op_code cont1 = 0"
  "payload_len cont1 = 4" "payload_offset cont1 = 0"
  "data_ptr cont2 = Some [3, 4]" "data_len cont2 = 2" "op_code cont2 = 0"
  "payload_len cont2 = 4" "payload_offset cont2 = 2"
  by (simp_all add: cont1_def cont2_def)

lemma s_cont_simps [simp]:
  "test_running s_cont" "s_accum_buffer s_cont = Addr 0"
  "mem s_cont 0 = Some ([1, 2] @ drop 2 fresh_block)"
  "s_accumulator s_cont =
     \<lparr>buffer = Addr 0, capacity = MAX_FRAGMENTED_PAYLOAD, expected_len = 4, received = 2,
      opcode = 0, active = True\<rparr>"
  by (simp_all add: s_cont_def s_mid_def)

lemma wf_s_cont: "wf_state s_cont"
  by (simp add: wf_state_def eval_defs)

lemma wf_conts: "wf_event cont1" "wf_event cont2"
  by (simp_all add: wf_event_def)

lemma accumulate_cont1: "accumulate NULL cont1 4 0 s_ready = Break s_cont"
  by (simp add: accumulate_def eval_defs s_ready_def s_cont_def s_mid_def Let_def
      flip: numeral_2_eq_2)

lemma handle_data_cont1: "handle_data env_ok cont1 s_ready = Break s_cont"
  by (simp add: handle_data_def select_payload_def size_t_of_int_def accumulate_cont1
      check_connection_def)

lemma handle_data_cont2:
  "echoed (handle_data env_ok cont2 s_cont) = Some (WS_TRANSPORT_OPCODES_CONT, [1, 2, 3, 4], 4)"
  using handle_data_continue [of s_cont env_ok cont2 0]
    copy_chunk_eq [OF wf_s_cont wf_conts(2), of 0 "[1, 2] @ drop 2 fresh_block"]
  by (simp add: wf_conts eval_defs check_connection_def Let_def WS_TRANSPORT_OPCODES_CONT_def)

lemma five_delays: "map retry_delay [0..<5] = [1000, 1000, 1000, 2000, 4000]"
  by code_simp

lemma msg_small_simps [simp]:
  "data_ptr msg_small = Some [1, 2]" "data_len msg_small = 2" "op_code msg_small = 1"
  "payload_len msg_small = 2" "payload_offset msg_small = 0"
  by (simp_all add: msg_small_def)

lemma handle_data_msg_small: "handle_data env_ok msg_small s_ready = Echo s_ready 1 [1, 2] 2"
  by (simp add: handle_data_def select_payload_def check_connection_def size_t_of_int_def
      bytes_at_def word_le_nat_alt)

lemma env_ok_loop_simps [simp]:
  "connected_in_loop env_ok = always_connected" "send_result env_ok = always_would_block"
  by (simp_all add: env_ok_def)

lemma ping_frame_simps [simp]:
  "data_ptr ping_frame = Some [5]" "data_len ping_frame = 1" "op_code ping_frame = 9"
  "payload_len ping_frame = 1" "payload_offset ping_frame = 0"
  by (simp_all add: ping_frame_def)

subsection \<open>Closing the transport stack\<close>

lemma length_esp_transport_close [simp]: "length (snd (esp_transport_close st)) = length st"
  by (induction st) simp_all

lemma released_once_Nil [simp]: "released_once []"
  by (simp add: released_once_def)

lemma released_once_Cons [simp]:
  "released_once (t # st) \<longleftrightarrow>
     teardowns t = (if closed t then 1 else 0) \<and> released_once st"
  by (simp add: released_once_def)

lemma released_once_append [simp]:
  "released_once (xs @ ys) \<longleftrightarrow> released_once xs \<and> released_once ys"
  by (induction xs) simp_all

lemma released_once_esp_transport_close:
  "released_once st \<Longrightarrow> released_once (snd (esp_transport_close st))"
proof (induction st)
  case Nil
  then show ?case by simp
next
  case (Cons t below)
  then show ?case
    by (cases "closed t") simp_all
qed

lemma closed_esp_transport_close_mono:
  "i < length st \<Longrightarrow> closed (st ! i) \<Longrightarrow> closed (snd (esp_transport_close st) ! i)"
proof (induction st arbitrary: i)
  case Nil
  then show ?case by simp
next
  case (Cons t below)
  then show ?case
    by (cases i) auto
qed

lemma closed_esp_transport_close_top:
  "st \<noteq> [] \<Longrightarrow> closed (snd (esp_transport_close st) ! 0)"
  by (cases st) auto

lemma esp_transport_close_closed:
  "st \<noteq> [] \<Longrightarrow> closed (st ! 0) \<Longrightarrow> esp_transport_close st = (0, st)"
  by (cases st) auto

lemma snd_close_layer:
  "snd (close_layer i st) = take i st @ snd (esp_transport_close (drop i st))"
  by (simp add: close_layer_def split: prod.splits)

lemma length_close_layer [simp]: "length (snd (close_layer i st)) = length st"
  by (simp add: snd_close_layer)

lemma released_once_close_layer:
  assumes "released_once st"
  shows "released_once (snd (close_layer i st))"
proof -
  from assms have "released_once (take i st @ drop i st)"
    by simp
  then have "released_once (take i st)" "released_once (drop i st)"
    by (simp_all only: released_once_append)
  with released_once_esp_transport_close [of "drop i st"] show ?thesis
    by (simp add: snd_close_layer)
qed

lemma closed_close_layer_mono:
  assumes "j < length st" "closed (st ! j)"
  shows "closed (snd (close_layer i st) ! j)"
proof (cases "j < i")
  case True
  with assms show ?thesis
    by (simp add: snd_close_layer nth_append)
next
  case False
  with assms have "j - i < length (drop i st)" "closed (drop i st ! (j - i))"
    by simp_all
  from closed_esp_transport_close_mono [OF this] False assms(1) show ?thesis
    by (simp add: snd_close_layer nth_append min_def)
qed

lemma closed_close_layer_self:
  assumes "i < length st"
  shows "closed (snd (close_layer i st) ! i)"
proof -
  from assms have "drop i st \<noteq> []"
    by simp
  from closed_esp_transport_close_top [OF this] assms show ?thesis
    by (simp add: snd_close_layer nth_append)
qed

lemma close_layer_closed:
  assumes "i < length st" "closed (st ! i)"
  shows "close_layer i st = (0, st)"
proof -
  from assms have "drop i st \<noteq> []" "closed (drop i st ! 0)"
    by simp_all
  from esp_transport_close_closed [OF this] show ?thesis
    by (simp add: close_layer_def)
qed

lemma length_close_all [simp]: "length (close_all cs st) = length st"
  by (induction cs arbitrary: st) simp_all

lemma released_once_close_all:
  "released_once st \<Longrightarrow> released_once (close_all cs st)"
  by (induction cs arbitrary: st) (simp_all add: released_once_close_layer)

lemma closed_close_all_mono:
  "j < length st \<Longrightarrow> closed (st ! j) \<Longrightarrow> closed (close_all cs st ! j)"
  by (induction cs arbitrary: st) (simp_all add: closed_close_layer_mono)

lemma closed_close_all_member:
  "i \<in> set cs \<Longrightarrow> i < length st \<Longrightarrow> closed (close_all cs st ! i)"
proof (induction cs arbitrary: st)
  case Nil
  then show ?case by simp
next
  case (Cons c cs)
  show ?case
  proof (cases "i = c")
    case True
    with Cons.prems closed_close_layer_self [of c st] show ?thesis
      by (simp add: closed_close_all_mono)
  next
    case False
    with Cons show ?thesis
      by simp
  qed
qed

subsection \<open>The claims\<close>

text \<open>
  C1. A stack in which every layer has been torn down once if it is closed and never if it
  is open (a fresh stack is one) stays so under every sequence of close invocations, on any
  layers in any order. Every layer that an invocation of the sequence names is closed
  afterwards and has been torn down exactly once, and a further invocation on it returns 0
  and changes nothing, as does any invocation on a layer that is already closed.
\<close>

theorem close_tears_down_once:
  assumes "released_once st"
  shows "released_once (close_all cs st) \<and>
         (\<forall>i\<in>set cs. i < length st \<longrightarrow>
            closed (close_all cs st ! i) \<and> teardowns (close_all cs st ! i) = 1 \<and>
            close_layer i (close_all cs st) = (0, close_all cs st)) \<and>
         (\<forall>i<length st. closed (st ! i) \<longrightarrow> close_layer i st = (0, st))"
proof (intro conjI ballI allI impI)
  show r: "released_once (close_all cs st)"
    using assms by (rule released_once_close_all)
  show c: "closed (close_all cs st ! i)" if "i \<in> set cs" "i < length st" for i
    using that by (rule closed_close_all_member)
  show "teardowns (close_all cs st ! i) = 1" if "i \<in> set cs" "i < length st" for i
  proof -
    from that(2) have "close_all cs st ! i \<in> set (close_all cs st)"
      by simp
    with r c [OF that] show ?thesis
      by (auto simp: released_once_def)
  qed
  show "close_layer i (close_all cs st) = (0, close_all cs st)"
    if "i \<in> set cs" "i < length st" for i
    using c [OF that] that(2) by (intro close_layer_closed) simp_all
  show "close_layer i st = (0, st)" if "i < length st" "closed (st ! i)" for i
    using that by (rule close_layer_closed)
qed

theorem close_tears_down_once_witness:
  "released_once fresh_stack \<and>
   map teardowns (close_all [1, 0, 1, 2, 0] fresh_stack) = [1, 1, 1] \<and>
   fst (close_layer 1 fresh_stack) = - 1 \<and>
   close_layer 1 (close_all [1] fresh_stack) = (0, close_all [1] fresh_stack)"
  using close_tears_down_once [of fresh_stack "[1, 0, 1, 2, 0]"]
    close_tears_down_once [of "close_all [1] fresh_stack" "[]"]
  by (simp add: released_once_def fresh_stack_def fresh_layer_def close_layer_def)

text \<open>
  C2. The handler evaluated where the claim fails. The first chunk of a binary message of
  4 bytes has been accumulated (2 bytes) when a chunk at offset 0 declares a total length of
  70000. \<^verbatim>\<open>ws_accumulator_prepare\<close> returns \<open>ESP_ERR_INVALID_SIZE\<close> and changes nothing,
  and the handler breaks with the globals as they were: no byte is copied, but the
  accumulator is still active after the rejection. (\<open>oversize_rejected_before_copy\<close> has what holds of
  every such request: it is rejected with the heap as it was, and the accumulator is
  inactive afterwards unless it was active and the chunk came at offset 0.)
\<close>

theorem oversize_rejection_leaves_accumulator_active:
  "handle_data env_ok chunk1 s_ready = Break s_mid \<and>
   ws_accumulator_prepare NULL 70000 2 s_mid = (ESP_ERR_INVALID_SIZE, s_mid) \<and>
   handle_data env_ok chunk_oversize s_mid = Break s_mid \<and>
   active (s_accumulator s_mid)"
  using handle_data_oversize_offset0 [of s_mid env_ok chunk_oversize 2]
  by (simp add: prepare_oversize MAX_FRAGMENTED_PAYLOAD_def handle_data_chunk1)

theorem oversize_rejection_leaves_accumulator_active_witness:
  "state_of (handle_data env_ok chunk_oversize s_mid) = Some s_mid \<and>
   active (s_accumulator s_mid)"
  using oversize_rejection_leaves_accumulator_active
  by simp




text \<open>
  C4, as amended. With a message under reassembly (the accumulator active at line 260), the
  chunk's copy hands the message to the echo exactly when the received count, offset plus
  chunk length, equals the expected length. The payload handed over is then the first
  \<open>expected_len\<close> bytes of the buffer, the opcode is the one recorded in the accumulator,
  and the accumulator is inactive; while the count is below the expected length nothing is
  handed over and the accumulator stays active. For a chunk that continues the message the
  data case is this copy followed by the connection check. The opcode recorded is the echo
  opcode of the chunk that began the accumulation, as \<^verbatim>\<open>ws_accumulator_prepare\<close> stored
  it: text, binary or continuation.
\<close>

theorem handoff_when_complete:
  assumes "wf_state s" and "wf_event d" and "active (s_accumulator s)"
    and "\<not> (data_ptr d = None \<and> data_len d > 0)"
  shows "(echoed (copy_chunk d s) \<noteq> None \<longleftrightarrow>
            nat (payload_offset d) + nat (data_len d) = expected_len (s_accumulator s)) \<and>
         (nat (payload_offset d) + nat (data_len d) = expected_len (s_accumulator s) \<longrightarrow>
            (\<exists>s1. copy_chunk d s =
                Echo s1 (opcode (s_accumulator s))
                  (heap_bytes (mem s1) (buffer (s_accumulator s)) (expected_len (s_accumulator s)))
                  (expected_len (s_accumulator s)) \<and>
              received (s_accumulator s1) = expected_len (s_accumulator s) \<and>
              \<not> active (s_accumulator s1))) \<and>
         (nat (payload_offset d) + nat (data_len d) < expected_len (s_accumulator s) \<longrightarrow>
            (\<exists>s1. copy_chunk d s = Break s1 \<and> active (s_accumulator s1) \<and>
              received (s_accumulator s1) = nat (payload_offset d) + nat (data_len d))) \<and>
         (test_running s \<and> connected_on_entry e \<and> send_opcode_of (op_code d) = Some opc \<and>
          0 < payload_offset d \<and> 0 < payload_len d \<and>
          nat (payload_len d) = expected_len (s_accumulator s) \<longrightarrow>
            handle_data e d s = check_connection e (copy_chunk d s)) \<and>
         (ws_accumulator_prepare mres tlen opc0 s0 = (ESP_OK, t1) \<and> 0 < tlen \<longrightarrow>
            opcode (s_accumulator t1) = opc0)"
proof -
  from wf_active_block [OF assms(1) assms(3)] obtain a blk where
    blk: "buffer (s_accumulator s) = Addr a" "s_accum_buffer s = Addr a" "mem s a = Some blk"
      "length blk = MAX_FRAGMENTED_PAYLOAD"
    by blast
  note eq = copy_chunk_eq [OF assms(1) assms(2) blk(1,3,4)]
  have nd: "(data_ptr d = None \<and> data_len d > 0) = False"
    using assms(4) by simp
  have cap: "expected_len (s_accumulator s) \<le> capacity (s_accumulator s)"
    using assms(1) by (simp add: wf_state_def Let_def)
  have 1: "echoed (copy_chunk d s) \<noteq> None \<longleftrightarrow>
      nat (payload_offset d) + nat (data_len d) = expected_len (s_accumulator s)"
    using cap by (auto simp: eq Let_def nd)
  have 2: "\<exists>s1. copy_chunk d s =
        Echo s1 (opcode (s_accumulator s))
          (heap_bytes (mem s1) (buffer (s_accumulator s)) (expected_len (s_accumulator s)))
          (expected_len (s_accumulator s)) \<and>
        received (s_accumulator s1) = expected_len (s_accumulator s) \<and>
        \<not> active (s_accumulator s1)"
    if "nat (payload_offset d) + nat (data_len d) = expected_len (s_accumulator s)"
    using that cap by (simp add: eq Let_def nd blk(1))
  have 3: "\<exists>s1. copy_chunk d s = Break s1 \<and> active (s_accumulator s1) \<and>
        received (s_accumulator s1) = nat (payload_offset d) + nat (data_len d)"
    if "nat (payload_offset d) + nat (data_len d) < expected_len (s_accumulator s)"
    using that cap assms(3) by (simp add: eq Let_def nd)
  have 4: "handle_data e d s = check_connection e (copy_chunk d s)"
    if "test_running s \<and> connected_on_entry e \<and> send_opcode_of (op_code d) = Some opc \<and>
          0 < payload_offset d \<and> 0 < payload_len d \<and>
          nat (payload_len d) = expected_len (s_accumulator s)"
    using that handle_data_continue [of s e d opc] assms(2,3,4) blk(1,2)
    by simp
  have 5: "opcode (s_accumulator t1) = opc0"
    if "ws_accumulator_prepare mres tlen opc0 s0 = (ESP_OK, t1) \<and> 0 < tlen"
    using that prepare_ok(3) [of mres tlen opc0 s0 t1] by simp
  from 1 2 3 4 5 show ?thesis
    by blast
qed

theorem handoff_when_complete_witness:
  "wf_state s_mid \<and> wf_event chunk2 \<and> active (s_accumulator s_mid) \<and>
   nat (payload_offset chunk2) + nat (data_len chunk2) = expected_len (s_accumulator s_mid) \<and>
   echoed (copy_chunk chunk2 s_mid) \<noteq> None \<and>
   handle_data env_ok chunk2 s_mid = check_connection env_ok (copy_chunk chunk2 s_mid)"
  using handoff_when_complete [OF wf_s_mid wf_chunks(2), of env_ok 2]
  by (simp add: wf_s_mid wf_chunks)

text \<open>
  C4 as stated fails on the opcode: a continuation frame delivered in two chunks is
  reassembled and echoed with the continuation opcode.
\<close>

theorem continuation_opcode_counterexample:
  "handle_data env_ok cont1 s_ready = Break s_cont \<and>
   echoed (handle_data env_ok cont2 s_cont) = Some (WS_TRANSPORT_OPCODES_CONT, [1, 2, 3, 4], 4)"
  by (simp add: handle_data_cont1 handle_data_cont2)

text \<open>
  C5. The handler evaluated where the claim fails. The first chunk of a binary message
  has been accumulated when a chunk at offset 0 opens a text message of 65538 bytes, one
  more than the maximum. The handler detects the error, logs it and returns, and between
  this invocation and the next the accumulator is still active. (The rest of the claim
  holds of the code: see \<open>wf_state_bounds\<close> with \<open>handler_preserves_wf\<close>,
  \<open>activation_only_by_prepare\<close> and \<open>teardown_event_inactive\<close>.)
\<close>

theorem oversize_error_leaves_accumulator_active:
  "websocket_event_handler env_ok WEBSOCKET_EVENT_DATA chunk1 s_ready =
     Some (Returned s_mid None) \<and>
   websocket_event_handler env_ok WEBSOCKET_EVENT_DATA chunk_oversize_text s_mid =
     Some (Returned s_mid None) \<and>
   active (s_accumulator s_mid)"
  using handle_data_oversize_offset0 [of s_mid env_ok chunk_oversize_text 1]
  by (simp add: websocket_event_handler_def MAX_FRAGMENTED_PAYLOAD_def handle_data_chunk1)

theorem oversize_error_leaves_accumulator_active_witness:
  "websocket_event_handler env_ok WEBSOCKET_EVENT_DATA chunk_oversize_text s_mid \<noteq> Some Crashed \<and>
   websocket_event_handler env_ok WEBSOCKET_EVENT_DATA chunk_oversize_text s_mid \<noteq> None"
  using oversize_error_leaves_accumulator_active
  by simp

text \<open>
  C6, as amended. A chunk of a data frame (opcode 0, 1 or 2, fewer bytes than the frame's
  total) arrives at offset 0 while the accumulator is active, the client is connected, and
  the declared total length is at most \<open>MAX_FRAGMENTED_PAYLOAD\<close>. Then the handler starts
  a fresh accumulation for the new message and waits for more: the expected length and the
  opcode are the new chunk's, the received count is the new chunk's length whatever it was
  before, and the bytes counted as received are exactly the new chunk's bytes.
\<close>

theorem offset0_preempts_previous_message:
  assumes "wf_state s" and "wf_event d" and "test_running s" and "connected_on_entry e"
    and "active (s_accumulator s)" and "payload_offset d = 0"
    and "send_opcode_of (op_code d) = Some opc"
    and "\<not> (data_ptr d = None \<and> data_len d > 0)"
    and "data_len d < payload_len d" and "nat (payload_len d) \<le> MAX_FRAGMENTED_PAYLOAD"
  shows "\<exists>s1. handle_data e d s = Break s1 \<and>
      buffer (s_accumulator s1) = s_accum_buffer s \<and>
      capacity (s_accumulator s1) = MAX_FRAGMENTED_PAYLOAD \<and>
      expected_len (s_accumulator s1) = nat (payload_len d) \<and>
      received (s_accumulator s1) = nat (data_len d) \<and>
      opcode (s_accumulator s1) = opc \<and>
      active (s_accumulator s1) \<and>
      heap_bytes (mem s1) (buffer (s_accumulator s1)) (received (s_accumulator s1)) =
        bytes_at (data_ptr d) (nat (data_len d))"
proof -
  from wf_active_block [OF assms(1) assms(5)] obtain a blk where
    blk: "buffer (s_accumulator s) = Addr a" "s_accum_buffer s = Addr a" "mem s a = Some blk"
      "length blk = MAX_FRAGMENTED_PAYLOAD"
    by blast
  have pos: "0 < payload_len d"
    using assms(2,9) by (simp add: wf_event_def)
  then have tl: "0 < nat (payload_len d)"
    by simp
  have inb: "nat (payload_offset d) + nat (data_len d) \<le> nat (payload_len d)"
    using assms(6,9) by simp
  have lt: "nat (data_len d) < nat (payload_len d)"
    using assms(9) pos by simp
  note hd = handle_data_fragmented [OF assms(3,4,7,8,2) pos disjI1 [OF assms(9)]]
  note ac = accumulate_restart [OF assms(1,2) blk(2,3) disjI1 [OF assms(6)] tl assms(10) assms(8) inb,
      of "malloc_result e" opc]
  note bl = bytes_at_length [OF assms(2,8)]
  show ?thesis
    using lt bl
    by (simp add: hd ac Let_def assms(6) check_connection_def blk heap_bytes_def)
qed

theorem offset0_preempts_previous_message_witness:
  "wf_state s_mid \<and> wf_event chunk_new_text \<and> active (s_accumulator s_mid) \<and>
   payload_offset chunk_new_text = 0 \<and>
   (\<exists>s1. handle_data env_ok chunk_new_text s_mid = Break s1 \<and>
      expected_len (s_accumulator s1) = 3 \<and> received (s_accumulator s1) = 1 \<and>
      opcode (s_accumulator s1) = 1 \<and> active (s_accumulator s1) \<and>
      heap_bytes (mem s1) (buffer (s_accumulator s1)) (received (s_accumulator s1)) = [7])"
  using offset0_preempts_previous_message [OF wf_s_mid wf_chunks(4), of env_ok 1]
  by (auto simp add: wf_s_mid wf_chunks MAX_FRAGMENTED_PAYLOAD_def bytes_at_def)

text \<open>
  C6 as stated fails when the new message is longer than \<open>MAX_FRAGMENTED_PAYLOAD\<close>: the
  chunk at offset 0 is rejected and the accumulation in flight (binary, 2 of 4 bytes) is
  neither discarded nor replaced.
\<close>

theorem offset0_oversize_counterexample:
  "handle_data env_ok chunk1 s_ready = Break s_mid \<and>
   active (s_accumulator s_mid) \<and> payload_offset chunk_oversize_restart = 0 \<and>
   handle_data env_ok chunk_oversize_restart s_mid = Break s_mid \<and>
   expected_len (s_accumulator s_mid) = 4 \<and> received (s_accumulator s_mid) = 2 \<and>
   opcode (s_accumulator s_mid) = 2"
  using handle_data_oversize_offset0 [of s_mid env_ok chunk_oversize_restart 1]
  by (simp add: MAX_FRAGMENTED_PAYLOAD_def handle_data_chunk1)

text \<open>
  C7, as amended. The data event of a control frame (opcode 0x08 or more, ping included),
  handled while the test is running and the client connected, leaves all globals as they
  were, every field of the accumulator and the buffer among them, also in the middle of a
  reassembly; and the handler sends nothing, so that the pong of the client is the one frame
  sent for a ping, with the ping's payload. When the test is not running or the client is
  not connected at line 175, the handler resets the accumulator for every data event, control
  frames included.
\<close>

theorem control_frame_leaves_accumulator:
  "(test_running s \<and> connected_on_entry e \<and> 0x08 \<le> op_code d \<longrightarrow>
      websocket_event_handler e WEBSOCKET_EVENT_DATA d s = Some (Returned s None)) \<and>
   (\<not> (test_running s \<and> connected_on_entry e) \<longrightarrow>
      websocket_event_handler e WEBSOCKET_EVENT_DATA d s =
        Some (Returned (ws_accumulator_reset s) None)) \<and>
   (test_running s \<and> connected_on_entry e \<and> op_code d = WS_TRANSPORT_OPCODES_PING \<longrightarrow>
      fst (client_receive e d s) =
        [Frame WS_TRANSPORT_OPCODES_PONG (bytes_at (data_ptr d) (size_t_of_int (data_len d)))])"
  by (auto simp: websocket_event_handler_def handle_data_def client_receive_def
      handler_frames_def WS_TRANSPORT_OPCODES_PING_def Let_def)

theorem control_frame_leaves_accumulator_witness:
  "test_running s_mid \<and> connected_on_entry env_ok \<and> active (s_accumulator s_mid) \<and>
   websocket_event_handler env_ok WEBSOCKET_EVENT_DATA ping_frame s_mid =
     Some (Returned s_mid None) \<and>
   fst (client_receive env_ok ping_frame s_mid) = [Frame WS_TRANSPORT_OPCODES_PONG [5]]"
  using control_frame_leaves_accumulator [of s_mid env_ok ping_frame]
  by (simp add: WS_TRANSPORT_OPCODES_PING_def bytes_at_def size_t_of_int_def)

text \<open>
  C7 as stated fails when the client reports at line 175 that it is not connected: the
  data event of a ping received in the middle of a reassembly resets the accumulator.
\<close>

theorem control_frame_resets_counterexample:
  "websocket_event_handler env_ok WEBSOCKET_EVENT_DATA chunk1 s_ready =
     Some (Returned s_mid None) \<and>
   active (s_accumulator s_mid) \<and> op_code ping_frame = 0x09 \<and>
   websocket_event_handler env_lost WEBSOCKET_EVENT_DATA ping_frame s_mid =
     Some (Returned (ws_accumulator_reset s_mid) None) \<and>
   \<not> active (s_accumulator (ws_accumulator_reset s_mid)) \<and>
   expected_len (s_accumulator (ws_accumulator_reset s_mid)) = 0"
proof -
  have "websocket_event_handler env_lost WEBSOCKET_EVENT_DATA ping_frame s_mid =
      Some (Returned (ws_accumulator_reset s_mid) None)"
    by (simp add: websocket_event_handler_def handle_data_def)
  then show ?thesis
    by (simp add: handler_chunk1 ws_accumulator_reset_def)
qed

text \<open>
  C8, as amended. The retry loop of the echo (lines 319 to 380), entered with
  \<^verbatim>\<open>sent = -1\<close> and \<^verbatim>\<open>attempt = 0\<close>. If the first \<open>k\<close> send calls fail and the next one
  succeeds while the client stays connected, the loop ends with the bytes written, after
  \<open>k + 1\<close> calls and the waits of the schedule: 1, 1, 1, 2, 4 and 8 ms after the first six
  failures, 32 ms after every later one. If the client is found disconnected after \<open>k\<close>
  failures, the loop ends with the failure. There is no deadline: while the client stays
  connected and every send fails, the loop does not end.
\<close>

theorem retry_loop_schedule:
  "((\<forall>i<k. sendf i < 0) \<and> 0 \<le> sendf k \<and> (\<forall>i\<le>k. conn i) \<longrightarrow>
      echo_retry_loop conn sendf (- 1) 0 0 [] =
        Some (sendf k, min k 6, Suc k, map retry_delay [0..<k])) \<and>
   ((\<forall>i<k. sendf i < 0 \<and> conn i) \<and> \<not> conn k \<longrightarrow>
      echo_retry_loop conn sendf (- 1) 0 0 [] =
        Some (if k = 0 then - 1 else sendf (k - 1), min k 6, k, map retry_delay [0..<k])) \<and>
   ((\<forall>i. conn i \<and> sendf i < 0) \<longrightarrow> echo_retry_loop conn sendf (- 1) 0 0 [] = None)"
proof (intro conjI impI)
  assume "(\<forall>i<k. sendf i < 0) \<and> 0 \<le> sendf k \<and> (\<forall>i\<le>k. conn i)"
  then show "echo_retry_loop conn sendf (- 1) 0 0 [] =
      Some (sendf k, min k 6, Suc k, map retry_delay [0..<k])"
    using retry_succeeds_from [of 0 k sendf conn "- 1" "[]"] by simp
next
  assume "(\<forall>i<k. sendf i < 0 \<and> conn i) \<and> \<not> conn k"
  then show "echo_retry_loop conn sendf (- 1) 0 0 [] =
      Some (if k = 0 then - 1 else sendf (k - 1), min k 6, k, map retry_delay [0..<k])"
    using retry_stops_from [of 0 k sendf conn "- 1" "[]"] by auto
next
  assume "\<forall>i. conn i \<and> sendf i < 0"
  then show "echo_retry_loop conn sendf (- 1) 0 0 [] = None"
    by (intro retry_never_returns_None) simp_all
qed

theorem retry_loop_schedule_witness:
  "five_would_blocks 0 < 0 \<and> five_would_blocks 4 < 0 \<and> 0 \<le> five_would_blocks 5 \<and>
   echo_retry_loop always_connected five_would_blocks (- 1) 0 0 [] =
     Some (7, 5, 6, [1000, 1000, 1000, 2000, 4000])"
  using retry_loop_schedule [of 5 five_would_blocks always_connected]
  by (simp add: five_would_blocks_def always_connected_def five_delays)

text \<open>
  C8 as stated fails on the deadline: with a client that stays connected and a transport
  that always reports would-block, neither the loop nor the handler returns.
\<close>

theorem retry_without_deadline_counterexample:
  "echo_retry_loop always_connected always_would_block (- 1) 0 0 [] = None \<and>
   websocket_event_handler env_ok WEBSOCKET_EVENT_DATA msg_small s_ready = None"
proof -
  have "echo_retry_loop always_connected always_would_block (- 1) 0 0 [] = None"
    by (intro retry_never_returns_None) (simp_all add: always_connected_def always_would_block_def)
  then show ?thesis
    by (simp add: websocket_event_handler_def handle_data_msg_small echo_def)
qed

text \<open>
  C9, as amended. A chunk of a data frame arrives with an offset greater than 0 while the
  accumulator is active and the client connected, and declares a total length that is not
  the expected one. When that length is at most \<open>MAX_FRAGMENTED_PAYLOAD\<close> and is not
  exceeded by the chunk's end, the handler does not reject the delivery: the accumulator is
  reset and prepared again with the new length and the chunk's opcode, the chunk is copied
  at its offset and \<open>received\<close> is offset plus chunk length. The bytes that were in the
  buffer below the offset stay there. The message is complete, and echoed if the client is
  still connected, when the chunk ends at the new length. When the new length is above
  \<open>MAX_FRAGMENTED_PAYLOAD\<close>, the delivery is rejected with the accumulator reset.
\<close>

theorem length_change_restarts_accumulation:
  assumes "wf_state s" and "wf_event d" and "test_running s" and "connected_on_entry e"
    and "active (s_accumulator s)" and "0 < payload_offset d"
    and "send_opcode_of (op_code d) = Some opc"
    and "\<not> (data_ptr d = None \<and> data_len d > 0)"
    and "0 < payload_len d"
    and "nat (payload_len d) \<noteq> expected_len (s_accumulator s)"
  shows "(nat (payload_len d) \<le> MAX_FRAGMENTED_PAYLOAD \<and>
          payload_offset d + data_len d \<le> payload_len d \<longrightarrow>
            (\<exists>a blk. s_accum_buffer s = Addr a \<and> mem s a = Some blk \<and>
               (let off = nat (payload_offset d);
                    n = nat (data_len d);
                    tlen = nat (payload_len d);
                    blk1 = take off blk @ bytes_at (data_ptr d) n @ drop (off + n) blk;
                    s1 = s\<lparr>mem := (mem s)(a \<mapsto> blk1),
                           s_accumulator := (s_accumulator s)
                             \<lparr>buffer := Addr a, capacity := MAX_FRAGMENTED_PAYLOAD,
                              expected_len := tlen, received := off + n, opcode := opc,
                              active := off + n < tlen\<rparr>\<rparr>
                in take off blk1 = take off blk \<and>
                   handle_data e d s =
                     (if off + n < tlen then Break s1
                      else if connected_before_echo e then Echo s1 opc (take tlen blk1) tlen
                      else Break (ws_accumulator_reset s1))))) \<and>
         (MAX_FRAGMENTED_PAYLOAD < nat (payload_len d) \<longrightarrow>
            handle_data e d s = Break (ws_accumulator_reset s))"
proof (intro conjI impI, elim conjE)
  assume a11: "nat (payload_len d) \<le> MAX_FRAGMENTED_PAYLOAD"
    and a12: "payload_offset d + data_len d \<le> payload_len d"
  from wf_active_block [OF assms(1) assms(5)] obtain a blk where
    blk: "s_accum_buffer s = Addr a" "mem s a = Some blk" "length blk = MAX_FRAGMENTED_PAYLOAD"
    by blast
  have "nat (payload_offset d) \<le> nat (payload_len d)"
    using assms(2) a12 unfolding wf_event_def by linarith
  with a11 blk(3) have off: "nat (payload_offset d) \<le> length blk"
    by simp
  note hd = handle_data_restart [OF assms(1,2,3,4) blk(1,2) disjI2 [OF disjI2 [OF assms(10)]]
      assms(7,8) disjI2 [OF assms(6)] assms(9) a11 a12]
  from off have "take (nat (payload_offset d))
      (take (nat (payload_offset d)) blk @ bytes_at (data_ptr d) (nat (data_len d)) @
        drop (nat (payload_offset d) + nat (data_len d)) blk) = take (nat (payload_offset d)) blk"
    by simp
  with hd blk(1,2) show "\<exists>a blk. s_accum_buffer s = Addr a \<and> mem s a = Some blk \<and>
     (let off = nat (payload_offset d);
          n = nat (data_len d);
          tlen = nat (payload_len d);
          blk1 = take off blk @ bytes_at (data_ptr d) n @ drop (off + n) blk;
          s1 = s\<lparr>mem := (mem s)(a \<mapsto> blk1),
                 s_accumulator := (s_accumulator s)
                   \<lparr>buffer := Addr a, capacity := MAX_FRAGMENTED_PAYLOAD, expected_len := tlen,
                    received := off + n, opcode := opc, active := off + n < tlen\<rparr>\<rparr>
      in take off blk1 = take off blk \<and>
         handle_data e d s =
           (if off + n < tlen then Break s1
            else if connected_before_echo e then Echo s1 opc (take tlen blk1) tlen
            else Break (ws_accumulator_reset s1)))"
    by (simp add: Let_def)
next
  assume "MAX_FRAGMENTED_PAYLOAD < nat (payload_len d)"
  then have "int MAX_FRAGMENTED_PAYLOAD < payload_len d"
    by linarith
  with assms show "handle_data e d s = Break (ws_accumulator_reset s)"
    by (intro handle_data_oversize_changed [of s e d opc]) simp_all
qed

theorem length_change_restarts_accumulation_witness:
  "wf_state s_mid \<and> wf_event chunk_resize \<and> active (s_accumulator s_mid) \<and>
   0 < payload_offset chunk_resize \<and>
   nat (payload_len chunk_resize) \<noteq> expected_len (s_accumulator s_mid) \<and>
   echoed (handle_data env_ok chunk_resize s_mid) = Some (2, [1, 2, 7], 3)"
  using length_change_restarts_accumulation [OF wf_s_mid wf_chunks_resize(1), of env_ok 2]
  by (auto simp add: wf_s_mid wf_chunks_resize MAX_FRAGMENTED_PAYLOAD_def bytes_at_def Let_def)

text \<open>
  C9 as stated fails twice. With a new declared length beyond the maximum the delivery is
  rejected, the accumulator reset. With a new declared length of 3 the two bytes
  accumulated before are not discarded: they are echoed as the start of the new message.
\<close>

theorem length_change_counterexample:
  "handle_data env_ok chunk1 s_ready = Break s_mid \<and>
   active (s_accumulator s_mid) \<and> 0 < payload_offset chunk_resize_over \<and>
   nat (payload_len chunk_resize_over) \<noteq> expected_len (s_accumulator s_mid) \<and>
   handle_data env_ok chunk_resize_over s_mid = Break (ws_accumulator_reset s_mid) \<and>
   nat (payload_len chunk_resize) \<noteq> expected_len (s_accumulator s_mid) \<and>
   heap_bytes (mem s_mid) (buffer (s_accumulator s_mid)) 2 = [1, 2] \<and>
   echoed (handle_data env_ok chunk_resize s_mid) = Some (2, [1, 2, 7], 3)"
  using handle_data_oversize_changed [OF wf_s_mid, of env_ok chunk_resize_over 2]
    handle_data_restart [OF wf_s_mid wf_chunks_resize(1), of env_ok 0 "[1, 2] @ drop 2 fresh_block" 2]
  by (simp add: wf_chunks_resize MAX_FRAGMENTED_PAYLOAD_def heap_bytes_def bytes_at_def Let_def
      handle_data_chunk1)

text \<open>
  C10. Preparing the accumulator with a declared total length of 0 returns \<open>ESP_OK\<close> and
  leaves the whole state as it was: no field of the accumulator changes, and no buffer is
  allocated (the buffer pointer and the heap are the same), whatever \<^verbatim>\<open>malloc\<close> would
  have returned.
\<close>

theorem prepare_zero_length_noop:
  "ws_accumulator_prepare mres 0 opc s = (ESP_OK, s)"
  by (simp add: ws_accumulator_prepare_def)

end
